theory Spec2Isabelle
  imports Main "HOL-Library.AList" "HOL-Library.Sublist" "HOL-Library.Multiset"
begin

section \<open>The Avaya HTML report cleaner\<close>

text \<open>
  A shallow embedding of \<^verbatim>\<open>main\<close> of \<^verbatim>\<open>avaya_html_report_cleaner.py\<close>. The script
  reads the \<^verbatim>\<open><label>\<close> elements of a report, places their texts in a grid by the
  pixel coordinates of their inline style, lifts "Label: value" cells into a metadata
  dictionary and cleans the grid into a pandas data frame that is written to a CSV file.

  What the model fixes:
  \<^item> a Python \<^verbatim>\<open>str\<close> is a \<open>string\<close>; a \<open>char\<close> stands for one code point below 256,
    so the non-breaking space \<^verbatim>\<open>\xa0\<close> is \<open>CHR 0xA0\<close>;
  \<^item> a Python \<^verbatim>\<open>int\<close> is an \<open>int\<close>;
  \<^item> a \<^verbatim>\<open>dict\<close> is an association list in insertion order; \<open>AList.update\<close> overwrites
    the value of a present key in place and appends an absent key, as \<^verbatim>\<open>d[k] = v\<close> does;
  \<^item> an exception is a value \<open>Inl e\<close> of \<open>py_error + 'a\<close>;
  \<^item> the parsed document is the list of its \<^verbatim>\<open><label>\<close> elements, in document order;
    reading the file and parsing the markup are not modelled;
  \<^item> \<^verbatim>\<open>datetime.strptime\<close> with the script's format is a parameter \<open>strptime\<close> of the
    model, \<open>None\<close> where the library raises \<^verbatim>\<open>ValueError\<close>.
\<close>

datatype py_error = KeyError string | ValueError string | IndexError string

subsection \<open>Strings\<close>

text \<open>The code points below 256 for which \<^verbatim>\<open>str.isspace\<close> holds.\<close>

definition isspace :: "char \<Rightarrow> bool" where
  "isspace c \<longleftrightarrow>
     c \<in> set [CHR 0x09, CHR 0x0A, CHR 0x0B, CHR 0x0C, CHR 0x0D, CHR 0x1C, CHR 0x1D,
               CHR 0x1E, CHR 0x1F, CHR 0x20, CHR 0x85, CHR 0xA0]"

text \<open>\<^verbatim>\<open>[0-9]\<close> and \<^verbatim>\<open>[a-zA-Z]\<close> of a \<^verbatim>\<open>str\<close> pattern, and the class \<^verbatim>\<open>[A-z\s]\<close> (the range
  \<^verbatim>\<open>A-z\<close> runs over the code points 65 to 122).\<close>

definition isdigit :: "char \<Rightarrow> bool" where
  "isdigit c \<longleftrightarrow> (48::nat) \<le> of_char c \<and> of_char c \<le> (57::nat)"

definition isletter :: "char \<Rightarrow> bool" where
  "isletter c \<longleftrightarrow> ((65::nat) \<le> of_char c \<and> of_char c \<le> (90::nat))
                  \<or> ((97::nat) \<le> of_char c \<and> of_char c \<le> (122::nat))"

definition label_class :: "char \<Rightarrow> bool" where
  "label_class c \<longleftrightarrow> ((65::nat) \<le> of_char c \<and> of_char c \<le> (122::nat)) \<or> isspace c"

definition nbsp :: char where
  "nbsp = CHR 0xA0"

text \<open>\<^verbatim>\<open>s.strip()\<close>.\<close>

definition strip :: "string \<Rightarrow> string" where
  "strip s = rev (dropWhile isspace (rev (dropWhile isspace s)))"

text \<open>\<^verbatim>\<open>s.replace(old, new)\<close>: the occurrences of \<open>old\<close> are replaced from left to right
  without overlap; an empty \<open>old\<close> matches before every character and at the end.\<close>

fun py_replace :: "string \<Rightarrow> string \<Rightarrow> string \<Rightarrow> string" where
  "py_replace [] new s = new @ concat (map (\<lambda>c. c # new) s)"
| "py_replace (a # old) new [] = []"
| "py_replace (a # old) new (c # cs) =
     (if prefix (a # old) (c # cs)
      then new @ py_replace (a # old) new (drop (length old) cs)
      else c # py_replace (a # old) new cs)"

text \<open>\<^verbatim>\<open>s.split(sep)\<close> for a non-empty \<open>sep\<close> (the script splits on \<^verbatim>\<open>"; "\<close> and on
  \<^verbatim>\<open>":"\<close>); \<open>acc\<close> holds the current piece, reversed.\<close>

fun split_loop :: "string \<Rightarrow> string \<Rightarrow> string \<Rightarrow> string list" where
  "split_loop sep acc [] = [rev acc]"
| "split_loop sep acc (c # cs) =
     (if sep \<noteq> [] \<and> prefix sep (c # cs)
      then rev acc # split_loop sep [] (drop (length sep - 1) cs)
      else split_loop sep (c # acc) cs)"

definition split_str :: "string \<Rightarrow> string \<Rightarrow> string list" where
  "split_str sep s = split_loop sep [] s"

text \<open>\<^verbatim>\<open>re.split(r'\|+', s)\<close>: the pieces between maximal runs of \<^verbatim>\<open>|\<close>.\<close>

function re_split_bars_loop :: "string \<Rightarrow> string \<Rightarrow> string list" where
  "re_split_bars_loop acc [] = [rev acc]"
| "re_split_bars_loop acc (c # cs) =
     (if c = CHR ''|''
      then rev acc # re_split_bars_loop [] (dropWhile (\<lambda>x. x = CHR ''|'') cs)
      else re_split_bars_loop (c # acc) cs)"
  by pat_completeness auto
termination
  by (relation "measure (\<lambda>(acc, s). length s)")
     (auto simp: less_Suc_eq_le length_dropWhile_le)

definition re_split_bars :: "string \<Rightarrow> string list" where
  "re_split_bars s = re_split_bars_loop [] s"

text \<open>\<^verbatim>\<open>re.sub(r' +', r' ', s)\<close> and \<^verbatim>\<open>re.sub(r' +', '', s)\<close>.\<close>

function collapse_spaces :: "string \<Rightarrow> string" where
  "collapse_spaces [] = []"
| "collapse_spaces (c # cs) =
     (if c = CHR '' ''
      then CHR '' '' # collapse_spaces (dropWhile (\<lambda>x. x = CHR '' '') cs)
      else c # collapse_spaces cs)"
  by pat_completeness auto
termination
  by (relation "measure length") (auto simp: less_Suc_eq_le length_dropWhile_le)

definition remove_spaces :: "string \<Rightarrow> string" where
  "remove_spaces s = filter (\<lambda>c. c \<noteq> CHR '' '') s"

text \<open>\<^verbatim>\<open>sep.join(xs)\<close>.\<close>

fun py_join :: "string \<Rightarrow> string list \<Rightarrow> string" where
  "py_join sep [] = []"
| "py_join sep [x] = x"
| "py_join sep (x # y # ys) = x @ sep @ py_join sep (y # ys)"

text \<open>\<^verbatim>\<open>int(s)\<close> on a \<^verbatim>\<open>str\<close>: surrounding whitespace is dropped, then an optional sign and
  decimal digits, where single underscores may stand between two digits. The whitespace
  that \<^verbatim>\<open>int\<close> drops is narrower than that of \<^verbatim>\<open>str.strip\<close>: the code points \<^verbatim>\<open>0x1C\<close> to
  \<^verbatim>\<open>0x1F\<close> are not dropped, and \<^verbatim>\<open>int('7\x1f')\<close> raises \<^verbatim>\<open>ValueError\<close>.\<close>

definition int_space :: "char \<Rightarrow> bool" where
  "int_space c \<longleftrightarrow>
     c \<in> set [CHR 0x09, CHR 0x0A, CHR 0x0B, CHR 0x0C, CHR 0x0D, CHR 0x20, CHR 0x85, CHR 0xA0]"

definition int_strip :: "string \<Rightarrow> string" where
  "int_strip s = rev (dropWhile int_space (rev (dropWhile int_space s)))"

definition digit_val :: "char \<Rightarrow> int" where
  "digit_val c = int (of_char c) - 48"

fun parse_digits :: "int \<Rightarrow> string \<Rightarrow> int option" where
  "parse_digits acc [] = Some acc"
| "parse_digits acc [c] = (if isdigit c then Some (acc * 10 + digit_val c) else None)"
| "parse_digits acc (c # d # ds) =
     (if isdigit c then parse_digits (acc * 10 + digit_val c) (d # ds)
      else if c = CHR ''_'' \<and> isdigit d then parse_digits (acc * 10 + digit_val d) ds
      else None)"

definition parse_unsigned :: "string \<Rightarrow> int option" where
  "parse_unsigned s =
     (case s of [] \<Rightarrow> None
      | c # cs \<Rightarrow> if isdigit c then parse_digits (digit_val c) cs else None)"

definition py_int :: "string \<Rightarrow> int option" where
  "py_int s =
     (case int_strip s of [] \<Rightarrow> None
      | c # cs \<Rightarrow>
          if c = CHR ''-'' then map_option uminus (parse_unsigned cs)
          else if c = CHR ''+'' then parse_unsigned cs
          else parse_unsigned (c # cs))"

text \<open>\<^verbatim>\<open>re.match(r'[A-z\s]+:(?![0-9])', s)\<close>. The colon is not in the class, so the greedy
  run of class characters at the start of \<open>s\<close> is the only candidate: the pattern matches
  when that run is not empty, a colon follows it, and no digit follows the colon.\<close>

definition re_match_label :: "string \<Rightarrow> bool" where
  "re_match_label s \<longleftrightarrow>
     takeWhile label_class s \<noteq> [] \<and>
     (case dropWhile label_class s of
        [] \<Rightarrow> False
      | c # rest \<Rightarrow> c = CHR '':'' \<and> (case rest of [] \<Rightarrow> True | d # _ \<Rightarrow> \<not> isdigit d))"

text \<open>\<^verbatim>\<open>re.search("[a-zA-Z]", s)\<close> and \<^verbatim>\<open>re.search(r'--+', s)\<close> succeed.\<close>

definition contains_letter :: "string \<Rightarrow> bool" where
  "contains_letter s \<longleftrightarrow> (\<exists>c \<in> set s. isletter c)"

fun contains_dashes :: "string \<Rightarrow> bool" where
  "contains_dashes (a # b # cs) =
     ((a = CHR ''-'' \<and> b = CHR ''-'') \<or> contains_dashes (b # cs))"
| "contains_dashes _ = False"

subsection \<open>Style decoding\<close>

type_synonym css_dict = "(string \<times> string) list"

text \<open>The loop of \<^verbatim>\<open>css_to_dict\<close>; \<^verbatim>\<open>elet[1]\<close> raises \<^verbatim>\<open>IndexError\<close> on a piece without a
  colon.\<close>

fun css_to_dict_loop :: "string list \<Rightarrow> css_dict \<Rightarrow> py_error + css_dict" where
  "css_to_dict_loop [] out_dict = Inr out_dict"
| "css_to_dict_loop (i # css_list) out_dict =
     (let elet = split_str '':'' i in
      if elet = [''''] then css_to_dict_loop css_list out_dict
      else (case elet of
              k # v # _ \<Rightarrow> css_to_dict_loop css_list (AList.update k v out_dict)
            | _ \<Rightarrow> Inl (IndexError ''list index out of range'')))"

definition css_to_dict :: "string \<Rightarrow> py_error + css_dict" where
  "css_to_dict css_str = css_to_dict_loop (split_str ''; '' css_str) []"

definition px_value :: "css_dict \<Rightarrow> string \<Rightarrow> py_error + int" where
  "px_value css_dict k =
     (case map_of css_dict k of
        None \<Rightarrow> Inl (KeyError k)
      | Some v \<Rightarrow>
          (case py_int (py_replace ''px'' '''' v) of
             None \<Rightarrow> Inl (ValueError ''invalid literal for int()'')
           | Some n \<Rightarrow> Inr n))"

definition get_coordinates :: "css_dict \<Rightarrow> py_error + (int \<times> int)" where
  "get_coordinates css_dict =
     (case px_value css_dict ''top'' of
        Inl e \<Rightarrow> Inl e
      | Inr i_coord \<Rightarrow>
          (case px_value css_dict ''left'' of
             Inl e \<Rightarrow> Inl e
           | Inr j_coord \<Rightarrow> Inr (i_coord, j_coord)))"

definition get_index :: "string \<Rightarrow> py_error + (int \<times> int)" where
  "get_index css_str =
     (case css_to_dict css_str of Inl e \<Rightarrow> Inl e | Inr d \<Rightarrow> get_coordinates d)"

subsection \<open>Fragment classification\<close>

text \<open>A \<^verbatim>\<open><label>\<close> element: its \<^verbatim>\<open>style\<close> attribute (\<^verbatim>\<open>i["style"]\<close> raises \<^verbatim>\<open>KeyError\<close>
  when the attribute is absent) and its \<^verbatim>\<open>.string\<close>, which is \<^verbatim>\<open>None\<close> for an element
  without a single text child.\<close>

record label =
  style_attr :: "string option"
  string_of :: "string option"

type_synonym datum = "(int \<times> int) \<times> string"

definition header_font :: string where
  "header_font = ''bold 12px verdana''"

text \<open>\<^verbatim>\<open>css_to_dict(i["style"])["font"]\<close>.\<close>

definition font_of :: "label \<Rightarrow> py_error + string" where
  "font_of i =
     (case style_attr i of
        None \<Rightarrow> Inl (KeyError ''style'')
      | Some st \<Rightarrow>
          (case css_to_dict st of
             Inl e \<Rightarrow> Inl e
           | Inr d \<Rightarrow>
               (case map_of d ''font'' of
                  None \<Rightarrow> Inl (KeyError ''font'')
                | Some f \<Rightarrow> Inr f)))"

text \<open>\<^verbatim>\<open>get_index(i["style"])\<close>.\<close>

definition index_of_label :: "label \<Rightarrow> py_error + (int \<times> int)" where
  "index_of_label i =
     (case style_attr i of None \<Rightarrow> Inl (KeyError ''style'') | Some st \<Rightarrow> get_index st)"

text \<open>The loop over \<^verbatim>\<open>Label_elets\<close> that fills \<^verbatim>\<open>indexed_data\<close> and \<^verbatim>\<open>_col_titles\<close>. A
  bold label is appended to both lists.\<close>

fun classify_loop ::
  "label list \<Rightarrow> datum list \<Rightarrow> string list list \<Rightarrow> py_error + (datum list \<times> string list list)"
where
  "classify_loop [] indexed_data col_titles0 = Inr (indexed_data, col_titles0)"
| "classify_loop (i # rest) indexed_data col_titles0 =
     (case string_of i of
        None \<Rightarrow> classify_loop rest indexed_data col_titles0
      | Some s \<Rightarrow>
          (case font_of i of
             Inl e \<Rightarrow> Inl e
           | Inr f \<Rightarrow>
               (let col_titles1 =
                      (if f = header_font
                       then col_titles0 @ [re_split_bars (py_replace [nbsp] ''|'' (strip s))]
                       else col_titles0)
                in case index_of_label i of
                     Inl e \<Rightarrow> Inl e
                   | Inr ij \<Rightarrow>
                       classify_loop rest
                         (indexed_data @ [(ij, py_replace [nbsp] '' '' (strip s))])
                         col_titles1)))"

definition classify :: "label list \<Rightarrow> py_error + (datum list \<times> string list list)" where
  "classify Label_elets = classify_loop Label_elets [] []"

subsection \<open>Header reconstruction\<close>

text \<open>\<^verbatim>\<open>max(len(x) for x in _col_titles)\<close> raises \<^verbatim>\<open>ValueError\<close> on an empty list.\<close>

definition max_title_list_length :: "string list list \<Rightarrow> py_error + nat" where
  "max_title_list_length col_titles0 =
     (if col_titles0 = [] then Inl (ValueError ''max() arg is an empty sequence'')
      else Inr (Max (set (map length col_titles0))))"

text \<open>The loop that fills \<^verbatim>\<open>col_titles\<close>, with its \<^verbatim>\<open>break\<close>.\<close>

fun col_titles_loop :: "string list list \<Rightarrow> nat \<Rightarrow> string list list \<Rightarrow> string list list" where
  "col_titles_loop [] m col_titles = col_titles"
| "col_titles_loop (i # rest) m col_titles =
     (if i = [''''] then col_titles_loop rest m col_titles
      else if length i < m then col_titles_loop rest m col_titles
      else if length col_titles = 2 then col_titles
      else col_titles_loop rest m (col_titles @ [i]))"

text \<open>\<^verbatim>\<open>zip(*xss)\<close>: tuples of the elements at one position, up to the shortest list; no
  list gives no tuple.\<close>

function py_zip :: "'a list list \<Rightarrow> 'a list list" where
  "py_zip [] = []"
| "py_zip (xs # xss) =
     (if \<exists>ys \<in> set (xs # xss). ys = [] then []
      else map hd (xs # xss) # py_zip (map tl (xs # xss)))"
  by pat_completeness auto
termination
  by (relation "measure (\<lambda>xss. case xss of [] \<Rightarrow> 0 | xs # _ \<Rightarrow> length xs)") auto

definition final_col_titles :: "string list list \<Rightarrow> py_error + string list" where
  "final_col_titles col_titles0 =
     (case max_title_list_length col_titles0 of
        Inl e \<Rightarrow> Inl e
      | Inr m \<Rightarrow>
          Inr (''TIME'' # map (py_join '' '') (py_zip (col_titles_loop col_titles0 m []))))"

subsection \<open>Grid assembly\<close>

text \<open>\<^verbatim>\<open>row_indices_set\<close> collects \<^verbatim>\<open>i[0][0]\<close>; its sorted list is \<^verbatim>\<open>row_indices_list\<close>.\<close>

definition row_indices_set :: "datum list \<Rightarrow> int set" where
  "row_indices_set indexed_data = set (map (\<lambda>i. fst (fst i)) indexed_data)"

definition row_indices_list :: "datum list \<Rightarrow> int list" where
  "row_indices_list indexed_data = sorted_list_of_set (row_indices_set indexed_data)"

text \<open>\<^verbatim>\<open>matrix_dict\<close>: for each row index, in ascending order, the data points of that
  row in document order. The keys are distinct, so each assignment appends an entry.\<close>

definition matrix_dict :: "datum list \<Rightarrow> (int \<times> datum list) list" where
  "matrix_dict indexed_data =
     map (\<lambda>i. (i, filter (\<lambda>j. fst (fst j) = i) indexed_data)) (row_indices_list indexed_data)"

text \<open>\<^verbatim>\<open>sorted_rows_dict\<close>: \<^verbatim>\<open>list.sort\<close> is stable, as \<open>sort_key\<close> is.\<close>

definition sorted_rows_dict :: "datum list \<Rightarrow> (int \<times> string list) list" where
  "sorted_rows_dict indexed_data =
     map (\<lambda>(i, m). (i, map snd (sort_key (\<lambda>x. snd (fst x)) m))) (matrix_dict indexed_data)"

subsection \<open>Metadata extraction\<close>

type_synonym metadata = "(string \<times> string) list"

text \<open>\<^verbatim>\<open>val.index(i)\<close> for an \<open>i\<close> taken from \<open>val\<close>: the first position that holds an equal
  string.\<close>

definition index_of :: "string list \<Rightarrow> string \<Rightarrow> nat" where
  "index_of val i = length (takeWhile (\<lambda>x. x \<noteq> i) val)"

text \<open>The inner loop \<^verbatim>\<open>for i in val\<close> of a row that has not exactly one cell.\<close>

fun metadata_cells :: "string list \<Rightarrow> string list \<Rightarrow> metadata \<Rightarrow> py_error + metadata" where
  "metadata_cells val [] metadata_dict = Inr metadata_dict"
| "metadata_cells val (i # rest) metadata_dict =
     (if re_match_label i
      then (if index_of val i + 1 < length val
            then metadata_cells val rest
                   (AList.update (collapse_spaces (butlast i))
                      (collapse_spaces (val ! (index_of val i + 1))) metadata_dict)
            else Inl (IndexError ''list index out of range''))
      else metadata_cells val rest metadata_dict)"

text \<open>The single-cell branch.\<close>

definition metadata_single :: "string \<Rightarrow> metadata \<Rightarrow> py_error + metadata" where
  "metadata_single v metadata_dict =
     (if re_match_label v
      then (case split_str '':'' v of
              d0 # d1 # _ \<Rightarrow> Inr (AList.update (strip d0) (strip d1) metadata_dict)
            | _ \<Rightarrow> Inl (IndexError ''list index out of range''))
      else Inr metadata_dict)"

fun metadata_loop :: "(int \<times> string list) list \<Rightarrow> metadata \<Rightarrow> py_error + metadata" where
  "metadata_loop [] metadata_dict = Inr metadata_dict"
| "metadata_loop ((key, val) # rest) metadata_dict =
     (case (if length val = 1 then metadata_single (val ! 0) metadata_dict
            else metadata_cells val val metadata_dict) of
        Inl e \<Rightarrow> Inl e
      | Inr md \<Rightarrow> metadata_loop rest md)"

definition extract_metadata :: "(int \<times> string list) list \<Rightarrow> py_error + metadata" where
  "extract_metadata sorted_rows = metadata_loop sorted_rows []"

text \<open>The \<^verbatim>\<open>"Date"\<close> entry is replaced by the parsed timestamp; the other values stay
  strings.\<close>

datatype 'd cell = Str string | NaN | Dt 'd

definition fix_timestamp ::
  "(string \<Rightarrow> 'd option) \<Rightarrow> metadata \<Rightarrow> py_error + (string \<times> 'd cell) list" where
  "fix_timestamp strptime metadata_dict =
     (case map_of metadata_dict ''Date'' of
        None \<Rightarrow> Inl (KeyError ''Date'')
      | Some timestamp \<Rightarrow>
          (case strptime timestamp of
             None \<Rightarrow> Inl (ValueError ''time data does not match format'')
           | Some fixed_timestamp \<Rightarrow>
               Inr (AList.update ''Date'' (Dt fixed_timestamp)
                      (map (\<lambda>(k, v). (k, Str v)) metadata_dict))))"

subsection \<open>Table normalisation\<close>

text \<open>
  The pandas operations, as pandas 1.4 (the release of the script's build date) runs
  them. \<^verbatim>\<open>DataFrame.from_dict(d, orient='index')\<close> makes one row per entry of \<open>d\<close>, labelled
  with its key, and fills the rows up to the length of the longest one with missing
  values; the columns are labelled \<open>0, 1, ...\<close>. A frame is kept here as its labelled rows;
  its number of columns is \<open>frame_width\<close> of the dictionary it was made from.
\<close>

type_synonym 'd labelled_rows = "(int \<times> 'd cell list) list"

definition frame_width :: "(int \<times> string list) list \<Rightarrow> nat" where
  "frame_width d = Max (set (0 # map (\<lambda>(k, r). length r) d))"

definition from_dict :: "(int \<times> string list) list \<Rightarrow> 'd labelled_rows" where
  "from_dict d =
     map (\<lambda>(k, r). (k, map Str r @ replicate (frame_width d - length r) NaN)) d"

text \<open>\<^verbatim>\<open>df[0].str.contains("[a-zA-Z]").fillna(False)\<close> on one cell: a search of the pattern,
  and \<open>False\<close> for a missing value.\<close>

fun str_contains_letter :: "'d cell \<Rightarrow> bool" where
  "str_contains_letter (Str s) = contains_letter s"
| "str_contains_letter _ = False"

text \<open>\<^verbatim>\<open>df1[0].replace('', np.nan)\<close>; \<^verbatim>\<open>df1[0].replace(r'--+', np.nan, regex=True)\<close>, where
  the replacement is not a string, so that a cell in which the pattern is found anywhere
  is replaced as a whole; \<^verbatim>\<open>df1[0].replace(r' +', '', regex=True)\<close>, which substitutes
  inside the cell.\<close>

fun replace_empty :: "'d cell \<Rightarrow> 'd cell" where
  "replace_empty (Str s) = (if s = [] then NaN else Str s)"
| "replace_empty c = c"

fun replace_dashes :: "'d cell \<Rightarrow> 'd cell" where
  "replace_dashes (Str s) = (if contains_dashes s then NaN else Str s)"
| "replace_dashes c = c"

fun replace_spaces :: "'d cell \<Rightarrow> 'd cell" where
  "replace_spaces (Str s) = Str (remove_spaces s)"
| "replace_spaces c = c"

text \<open>An operation on column \<open>0\<close> of every row.\<close>

definition on_column0 :: "('d cell \<Rightarrow> 'd cell) \<Rightarrow> 'd labelled_rows \<Rightarrow> 'd labelled_rows" where
  "on_column0 f df = map (\<lambda>(k, r). (k, r[0 := f (r ! 0)])) df"

text \<open>\<^verbatim>\<open>df[~df[0].str.contains("[a-zA-Z]").fillna(False)].copy(deep=True)\<close>.\<close>

definition drop_letter_rows :: "'d labelled_rows \<Rightarrow> 'd labelled_rows" where
  "drop_letter_rows df = filter (\<lambda>(k, r). \<not> str_contains_letter (r ! 0)) df"

text \<open>\<^verbatim>\<open>df1.dropna(subset=[0])\<close>.\<close>

definition dropna0 :: "'d labelled_rows \<Rightarrow> 'd labelled_rows" where
  "dropna0 df = filter (\<lambda>(k, r). r ! 0 \<noteq> NaN) df"

text \<open>The rows of \<^verbatim>\<open>df1\<close> after the three replacements and \<^verbatim>\<open>dropna\<close>, still labelled with
  their row coordinate.\<close>

definition clean_rows :: "'d labelled_rows \<Rightarrow> 'd labelled_rows" where
  "clean_rows df =
     on_column0 replace_spaces
       (dropna0 (on_column0 replace_dashes (on_column0 replace_empty (drop_letter_rows df))))"

text \<open>The finished frame: its column names and its rows, the index reset.\<close>

record 'd frame =
  columns :: "string list"
  rows :: "'d cell list list"

text \<open>\<^verbatim>\<open>df1.insert(0, k, [v for _ in range(len(df1.index))])\<close> for every entry of the
  metadata dictionary; \<^verbatim>\<open>insert\<close> raises \<^verbatim>\<open>ValueError\<close> when the column exists already.\<close>

fun insert_metadata :: "(string \<times> 'd cell) list \<Rightarrow> 'd frame \<Rightarrow> py_error + 'd frame" where
  "insert_metadata [] df1 = Inr df1"
| "insert_metadata ((k, v) # rest) df1 =
     (if k \<in> set (columns df1) then Inl (ValueError ''cannot insert, already exists'')
      else insert_metadata rest
             \<lparr>columns = k # columns df1, rows = map (\<lambda>r. v # r) (rows df1)\<rparr>)"

text \<open>Lines 177 to 192: \<^verbatim>\<open>df[0]\<close> raises \<^verbatim>\<open>KeyError\<close> on a frame without columns, and the
  assignment to \<^verbatim>\<open>df1.columns\<close> raises \<^verbatim>\<open>ValueError\<close> unless there are as many names as
  columns.\<close>

definition normalize ::
  "(int \<times> string list) list \<Rightarrow> string list \<Rightarrow> (string \<times> 'd cell) list \<Rightarrow> py_error + 'd frame"
where
  "normalize sorted_rows final_titles metadata_dict =
     (if frame_width sorted_rows = 0 then Inl (KeyError ''0'')
      else if length final_titles \<noteq> frame_width sorted_rows
      then Inl (ValueError ''Length mismatch'')
      else insert_metadata metadata_dict
             \<lparr>columns = final_titles, rows = map snd (clean_rows (from_dict sorted_rows))\<rparr>)"

subsection \<open>The run\<close>

text \<open>The transformation of \<^verbatim>\<open>main\<close> up to the export: the column names, the metadata
  dictionary and the frame \<^verbatim>\<open>df1\<close>.\<close>

definition core ::
  "(string \<Rightarrow> 'd option) \<Rightarrow> label list
     \<Rightarrow> py_error + (string list \<times> (string \<times> 'd cell) list \<times> 'd frame)" where
  "core strptime Label_elets =
     (case classify Label_elets of
        Inl e \<Rightarrow> Inl e
      | Inr (indexed_data, col_titles0) \<Rightarrow>
          (case final_col_titles col_titles0 of
             Inl e \<Rightarrow> Inl e
           | Inr final_titles \<Rightarrow>
               (case extract_metadata (sorted_rows_dict indexed_data) of
                  Inl e \<Rightarrow> Inl e
                | Inr md0 \<Rightarrow>
                    (case fix_timestamp strptime md0 of
                       Inl e \<Rightarrow> Inl e
                     | Inr metadata_dict \<Rightarrow>
                         (case normalize (sorted_rows_dict indexed_data) final_titles
                                 metadata_dict of
                            Inl e \<Rightarrow> Inl e
                          | Inr df1 \<Rightarrow> Inr (final_titles, metadata_dict, df1))))))"

text \<open>\<^verbatim>\<open>main\<close> on the labels of the document: the files written so far are a map from
  file names to frames. With \<^verbatim>\<open>useSQL\<close> the script only prints.\<close>

definition main ::
  "(string \<Rightarrow> 'd option) \<Rightarrow> string \<Rightarrow> bool \<Rightarrow> label list
     \<Rightarrow> (string \<rightharpoonup> 'd frame) \<Rightarrow> py_error option \<times> (string \<rightharpoonup> 'd frame)" where
  "main strptime TARGET_FILE useSQL Label_elets files =
     (case core strptime Label_elets of
        Inl e \<Rightarrow> (Some e, files)
      | Inr (final_titles, metadata_dict, df1) \<Rightarrow>
          if \<not> useSQL
          then (None, files(''phone_data_'' @ TARGET_FILE @ ''.csv'' \<mapsto> df1))
          else (None, files))"

subsection \<open>Notions used in the statements\<close>

text \<open>The rows on which the metadata loop looks for an entry: a row of one cell that
  matches the label pattern, or a row of several cells one of which matches it.\<close>

definition is_metadata_row :: "string list \<Rightarrow> bool" where
  "is_metadata_row val \<longleftrightarrow>
     (if length val = 1 then re_match_label (val ! 0) else (\<exists>i \<in> set val. re_match_label i))"

text \<open>The first-cell tests of the normaliser on a cell of the grid: the cell holds a
  letter, is empty, or holds two dashes in a row.\<close>

definition first_cell_dropped :: "string \<Rightarrow> bool" where
  "first_cell_dropped c \<longleftrightarrow> contains_letter c \<or> c = [] \<or> contains_dashes c"

text \<open>The column names as the specification words them: the token lists that are empty
  or shorter than the longest one are discarded, the first two that are left are zipped
  and each pair is joined with a space, and \<^verbatim>\<open>"TIME"\<close> is put in front. With one list
  left, its tokens are the names.\<close>

definition header_spec :: "string list list \<Rightarrow> string list" where
  "header_spec token_lists =
     (let maxLen = Max (set (map length token_lists));
          surviving = filter (\<lambda>t. \<not> (t = [] \<or> t = [''''] \<or> length t < maxLen)) token_lists
      in ''TIME'' #
         (case take 2 surviving of
            [a, b] \<Rightarrow> map (\<lambda>(x, y). x @ '' '' @ y) (zip a b)
          | [a] \<Rightarrow> a
          | _ \<Rightarrow> []))"

text \<open>A row of the grid that passes these tests, as it stands in the frame of \<open>w\<close>
  columns: the spaces are taken out of its first cell, and missing values fill it up.\<close>

definition kept_row :: "nat \<Rightarrow> string list \<Rightarrow> 'd cell list" where
  "kept_row w val =
     Str (remove_spaces (hd val)) # map Str (tl val) @ replicate (w - length val) NaN"

text \<open>The data fragments as the specification words them: the labels that are not
  header-styled and whose text is not empty after trimming.\<close>

definition data_fragments_spec :: "label list \<Rightarrow> label list" where
  "data_fragments_spec Label_elets =
     filter (\<lambda>l. font_of l \<noteq> Inr header_font \<and>
                (case string_of l of None \<Rightarrow> False | Some s \<Rightarrow> strip s \<noteq> []))
       Label_elets"

text \<open>The declarations of a style string: its pieces between \<^verbatim>\<open>"; "\<close>, each cut at its
  colons, without the empty piece that a trailing separator leaves. The value declared
  for a property is the text after the first colon of the last declaration that names
  the property.\<close>

definition declarations :: "string \<Rightarrow> string list list" where
  "declarations st = filter (\<lambda>e. e \<noteq> ['''']) (map (split_str '':'') (split_str ''; '' st))"

definition declared :: "string \<Rightarrow> string \<Rightarrow> string option" where
  "declared st k =
     (case rev (filter (\<lambda>e. hd e = k) (declarations st)) of
        [] \<Rightarrow> None
      | e # _ \<Rightarrow> (case e of _ # v # _ \<Rightarrow> Some v | _ \<Rightarrow> None))"

text \<open>A decimal integer as \<^verbatim>\<open>int\<close> reads it: between surrounding whitespace, an optional
  sign and then digits, the first and the last character a digit and underscores only
  singly between digits.\<close>

fun no_double_underscore :: "string \<Rightarrow> bool" where
  "no_double_underscore (a # b # cs) =
     (\<not> (a = CHR ''_'' \<and> b = CHR ''_'') \<and> no_double_underscore (b # cs))"
| "no_double_underscore _ = True"

definition decimal_body :: "string \<Rightarrow> bool" where
  "decimal_body b \<longleftrightarrow>
     b \<noteq> [] \<and> isdigit (hd b) \<and> isdigit (last b) \<and>
     list_all (\<lambda>c. isdigit c \<or> c = CHR ''_'') b \<and> no_double_underscore b"

definition int_literal :: "string \<Rightarrow> bool" where
  "int_literal s \<longleftrightarrow>
     (case int_strip s of
        [] \<Rightarrow> False
      | c # cs \<Rightarrow> if c = CHR ''-'' \<or> c = CHR ''+'' then decimal_body cs else decimal_body (c # cs))"

text \<open>A style has a numeric value for a property when the declared value, the unit
  \<^verbatim>\<open>px\<close> taken out, is such an integer.\<close>

definition has_numeric :: "string \<Rightarrow> string \<Rightarrow> bool" where
  "has_numeric st k \<longleftrightarrow>
     (case declared st k of None \<Rightarrow> False | Some v \<Rightarrow> int_literal (py_replace ''px'' '''' v))"


text \<open>A stand-in for \<^verbatim>\<open>strptime\<close> in the examples: it parses the one timestamp they use,
  to year, month, day, hour and minute.\<close>

definition strptime_sample :: "string \<Rightarrow> (nat \<times> nat \<times> nat \<times> nat \<times> nat) option" where
  "strptime_sample s =
     (if s = ''10:00 AM Mon Jan 01, 2024'' then Some (2024, 1, 1, 10, 0) else None)"

section \<open>Properties\<close>

subsection \<open>Single-cell metadata rows\<close>

text \<open>
  C3. The specification takes the label of a single-cell metadata row from the left of
  the first colon and the value from the whole text to its right. The script splits the
  cell at every colon and stores the second piece: on the row
  \<^verbatim>\<open>"Date: 10:00 AM Mon Jan 01, 2024"\<close> the value recorded under \<^verbatim>\<open>"Date"\<close> is \<^verbatim>\<open>"10"\<close>, not
  \<^verbatim>\<open>"10:00 AM Mon Jan 01, 2024"\<close>.
\<close>

theorem single_cell_date_value_truncated:
  "extract_metadata [(0, [''Date: 10:00 AM Mon Jan 01, 2024''])] = Inr [(''Date'', ''10'')]"
  by code_simp

subsection \<open>Header reconstruction\<close>

lemma col_titles_loop_take:
  "length acc \<le> 2 \<Longrightarrow>
   col_titles_loop tls m acc = take 2 (acc @ filter (\<lambda>t. t \<noteq> [''''] \<and> \<not> length t < m) tls)"
proof (induction tls arbitrary: acc)
  case Nil
  then show ?case by simp
next
  case (Cons i rest)
  show ?case
  proof (cases "i = [''''] \<or> length i < m")
    case True
    then show ?thesis using Cons by auto
  next
    case False
    show ?thesis
    proof (cases "length acc = 2")
      case True
      then show ?thesis using False by simp
    next
      case F2: False
      with Cons.prems have "length (acc @ [i]) \<le> 2" by simp
      from Cons.IH[OF this] show ?thesis using False F2 by simp
    qed
  qed
qed

lemma py_zip_single: "py_zip [a] = map (\<lambda>x. [x]) a"
  by (induction a) auto

lemma py_zip_pair: "py_zip [a, b] = map (\<lambda>(x, y). [x, y]) (zip a b)"
proof (induction a arbitrary: b)
  case Nil
  then show ?case by simp
next
  case (Cons x a)
  then show ?case by (cases b) auto
qed

lemma py_zip_all_empty: "\<forall>xs \<in> set xss. xs = [] \<Longrightarrow> py_zip xss = []"
  by (cases xss) auto

lemma names_of_survivors:
  "length s \<le> 2 \<Longrightarrow>
   map (py_join '' '') (py_zip s) =
     (case s of [a, b] \<Rightarrow> map (\<lambda>(x, y). x @ '' '' @ y) (zip a b) | [a] \<Rightarrow> a | _ \<Rightarrow> [])"
proof -
  assume "length s \<le> 2"
  then consider "s = []" | a where "s = [a]" | a b where "s = [a, b]"
    by (cases s; cases "tl s"; cases "tl (tl s)") auto
  then show ?thesis
  proof cases
    case 1 then show ?thesis by simp
  next
    case 2 then show ?thesis by (simp add: py_zip_single comp_def del: py_zip.simps)
  next
    case 3 then show ?thesis by (simp add: py_zip_pair comp_def split_def del: py_zip.simps)
  qed
qed

text \<open>
  C6. For a non-empty list of header token lists, the column names that the script
  computes are the names of the specification: the token lists that are empty or shorter
  than the longest one are discarded, the first two that are left are zipped and joined
  pairwise with one space, and \<^verbatim>\<open>"TIME"\<close> is the first name.
\<close>

theorem column_names_as_specified:
  assumes "col_titles0 \<noteq> []"
  shows "final_col_titles col_titles0 = Inr (header_spec col_titles0)"
proof -
  define m where "m = Max (set (map length col_titles0))"
  have le: "\<And>t. t \<in> set col_titles0 \<Longrightarrow> length t \<le> m"
    unfolding m_def by (simp add: Max_ge)
  let ?P = "\<lambda>t. t \<noteq> [''''] \<and> \<not> length t < m"
  let ?Q = "\<lambda>t. \<not> (t = [] \<or> t = [''''] \<or> length t < m)"
  have loop: "col_titles_loop col_titles0 m [] = take 2 (filter ?P col_titles0)"
    using col_titles_loop_take[of "[]" col_titles0 m] by simp
  have "map (py_join '' '') (py_zip (take 2 (filter ?P col_titles0)))
      = map (py_join '' '') (py_zip (take 2 (filter ?Q col_titles0)))"
  proof (cases "m = 0")
    case True
    then have all: "\<forall>t \<in> set col_titles0. t = []" using le by fastforce
    then have "filter ?Q col_titles0 = []" by (auto simp: filter_empty_conv)
    moreover have "\<forall>xs \<in> set (take 2 (filter ?P col_titles0)). xs = []"
      using all by (auto dest!: in_set_takeD)
    ultimately show ?thesis by (simp add: py_zip_all_empty del: py_zip.simps)
  next
    case False
    then have "filter ?P col_titles0 = filter ?Q col_titles0"
      by (intro filter_cong) auto
    then show ?thesis by simp
  qed
  also have "\<dots> = (case take 2 (filter ?Q col_titles0) of
                    [a, b] \<Rightarrow> map (\<lambda>(x, y). x @ '' '' @ y) (zip a b) | [a] \<Rightarrow> a | _ \<Rightarrow> [])"
    by (rule names_of_survivors) simp
  finally show ?thesis
    using assms loop by (simp add: final_col_titles_def max_title_list_length_def header_spec_def m_def Let_def)
qed

theorem column_names_as_specified_witness:
  "[[''Agent'', ''Skill''], [''''], [''x''], [''Name'', ''Id''], [''Agent'', ''Skill'']] \<noteq> [] \<and>
   final_col_titles [[''Agent'', ''Skill''], [''''], [''x''], [''Name'', ''Id''], [''Agent'', ''Skill'']]
     = Inr [''TIME'', ''Agent Name'', ''Skill Id'']"
proof -
  have "header_spec [[''Agent'', ''Skill''], [''''], [''x''], [''Name'', ''Id''], [''Agent'', ''Skill'']]
     = [''TIME'', ''Agent Name'', ''Skill Id'']"
    by code_simp
  then show ?thesis
    using column_names_as_specified[of "[[''Agent'', ''Skill''], [''''], [''x''], [''Name'', ''Id''], [''Agent'', ''Skill'']]"]
    by simp
qed

subsection \<open>The value next to a label cell\<close>

lemma metadata_cells_error:
  "metadata_cells val cells md = Inl e \<Longrightarrow> e = IndexError ''list index out of range''"
  by (induction cells arbitrary: md) (auto split: if_splits)

lemma metadata_single_error:
  "metadata_single v md = Inl e \<Longrightarrow> e = IndexError ''list index out of range''"
  by (auto simp: metadata_single_def split: if_splits list.splits)

lemma metadata_loop_error:
  "metadata_loop g md = Inl e \<Longrightarrow> e = IndexError ''list index out of range''"
proof (induction g arbitrary: md)
  case Nil
  then show ?case by simp
next
  case (Cons p g)
  obtain k val where p: "p = (k, val)" by (cases p)
  from Cons show ?case unfolding p
    by (auto split: if_splits sum.splits dest: metadata_cells_error metadata_single_error)
qed

lemma index_of_last:
  assumes "val \<noteq> []" "last val \<notin> set (butlast val)"
  shows "index_of val (last val) = length val - 1"
proof -
  have "val = butlast val @ [last val]" using assms(1) by simp
  then have "takeWhile (\<lambda>x. x \<noteq> last val) val
           = takeWhile (\<lambda>x. x \<noteq> last val) (butlast val @ [last val])" by simp
  also have "\<dots> = butlast val" using assms(2) by (subst takeWhile_append2) auto
  finally show ?thesis by (simp add: index_of_def)
qed

lemma metadata_cells_last_fails:
  assumes "val \<noteq> []" "last val \<notin> set (butlast val)" "re_match_label (last val)"
  shows "last val \<in> set cells \<Longrightarrow> \<exists>e. metadata_cells val cells md = Inl e"
proof (induction cells arbitrary: md)
  case Nil
  then show ?case by simp
next
  case (Cons i rest)
  show ?case
  proof (cases "i = last val")
    case True
    then show ?thesis using assms index_of_last[OF assms(1,2)] by simp
  next
    case False
    with Cons.prems have "last val \<in> set rest" by simp
    from Cons.IH[OF this] show ?thesis by auto
  qed
qed

lemma metadata_loop_fails:
  assumes "2 \<le> length val" "last val \<notin> set (butlast val)" "re_match_label (last val)"
  shows "(k, val) \<in> set g \<Longrightarrow> \<exists>e. metadata_loop g md = Inl e"
proof (induction g arbitrary: md)
  case Nil
  then show ?case by simp
next
  case (Cons p g)
  obtain k' val' where p: "p = (k', val')" by (cases p)
  show ?case
  proof (cases "p = (k, val)")
    case True
    have ne: "val \<noteq> []" using assms(1) by auto
    have "last val \<in> set val" using ne by simp
    from metadata_cells_last_fails[OF ne assms(2,3) this]
    obtain e where "metadata_cells val val md = Inl e" by blast
    then show ?thesis using True assms(1) by simp
  next
    case False
    with Cons.prems have "(k, val) \<in> set g" by simp
    from Cons.IH[OF this] show ?thesis unfolding p by (auto split: sum.splits)
  qed
qed

lemma classify_nonempty_titles:
  "col_titles0 \<noteq> [] \<Longrightarrow> \<exists>hs. final_col_titles col_titles0 = Inr hs"
  by (simp add: final_col_titles_def max_title_list_length_def)

text \<open>
  C10, as amended. In a row of several cells whose last cell matches the label pattern
  and whose last cell's text stands nowhere earlier in the row, \<^verbatim>\<open>val.index(i) + 1\<close> is
  the length of the row: the extraction raises \<^verbatim>\<open>IndexError\<close>, and a run that has reached
  the extractor ends with that error and writes no file.
\<close>

theorem trailing_label_cell_fails:
  assumes "classify Label_elets = Inr (indexed_data, col_titles0)" and "col_titles0 \<noteq> []"
    and "(k, val) \<in> set (sorted_rows_dict indexed_data)"
    and "2 \<le> length val" and "re_match_label (last val)"
    and "last val \<notin> set (butlast val)"
  shows "extract_metadata (sorted_rows_dict indexed_data)
           = Inl (IndexError ''list index out of range'') \<and>
         main strptime TARGET_FILE useSQL Label_elets files
           = (Some (IndexError ''list index out of range''), files)"
proof -
  obtain e where "metadata_loop (sorted_rows_dict indexed_data) [] = Inl e"
    using metadata_loop_fails[OF assms(4,6,5,3)] by blast
  then have ex: "extract_metadata (sorted_rows_dict indexed_data)
           = Inl (IndexError ''list index out of range'')"
    using metadata_loop_error by (fastforce simp: extract_metadata_def)
  obtain hs where "final_col_titles col_titles0 = Inr hs"
    using classify_nonempty_titles[OF assms(2)] by blast
  then show ?thesis using ex assms(1) by (simp add: main_def core_def)
qed

theorem trailing_label_cell_fails_witness:
  "classify
     [\<lparr>style_attr = Some ''font:bold 12px verdana; top:0px; left:50px'', string_of = Some ''Agent''\<rparr>,
      \<lparr>style_attr = Some ''font:x; top:8px; left:0px'', string_of = Some ''09:15''\<rparr>,
      \<lparr>style_attr = Some ''font:x; top:8px; left:50px'', string_of = Some ''Skill:''\<rparr>]
     = Inr ([((0, 50), ''Agent''), ((8, 0), ''09:15''), ((8, 50), ''Skill:'')], [[''Agent'']]) \<and>
   (8, [''09:15'', ''Skill:'']) \<in> set (sorted_rows_dict [((0, 50), ''Agent''), ((8, 0), ''09:15''), ((8, 50), ''Skill:'')]) \<and>
   re_match_label (last [''09:15'', ''Skill:'']) \<and>
   main strptime_sample ''report.html'' False
     [\<lparr>style_attr = Some ''font:bold 12px verdana; top:0px; left:50px'', string_of = Some ''Agent''\<rparr>,
      \<lparr>style_attr = Some ''font:x; top:8px; left:0px'', string_of = Some ''09:15''\<rparr>,
      \<lparr>style_attr = Some ''font:x; top:8px; left:50px'', string_of = Some ''Skill:''\<rparr>] Map.empty
     = (Some (IndexError ''list index out of range''), Map.empty)"
proof -
  have c: "classify
     [\<lparr>style_attr = Some ''font:bold 12px verdana; top:0px; left:50px'', string_of = Some ''Agent''\<rparr>,
      \<lparr>style_attr = Some ''font:x; top:8px; left:0px'', string_of = Some ''09:15''\<rparr>,
      \<lparr>style_attr = Some ''font:x; top:8px; left:50px'', string_of = Some ''Skill:''\<rparr>]
     = Inr ([((0, 50), ''Agent''), ((8, 0), ''09:15''), ((8, 50), ''Skill:'')], [[''Agent'']])"
    by code_simp
  have t: "[[''Agent'']] \<noteq> ([] :: string list list)" by simp
  have r: "(8, [''09:15'', ''Skill:'']) \<in> set (sorted_rows_dict [((0, 50), ''Agent''), ((8, 0), ''09:15''), ((8, 50), ''Skill:'')])"
    by code_simp
  have l: "2 \<le> length [''09:15'', ''Skill:'']" by simp
  have m: "re_match_label (last [''09:15'', ''Skill:''])" by code_simp
  have n: "last [''09:15'', ''Skill:''] \<notin> set (butlast [''09:15'', ''Skill:''])" by simp
  from trailing_label_cell_fails[OF c t r l m n, of strptime_sample "''report.html''" False Map.empty]
  show ?thesis using c r m by simp
qed

text \<open>
  C10 as stated fails where the text of the last cell stands earlier in the row too:
  \<^verbatim>\<open>val.index\<close> finds the first of the equal cells, and the cell after it exists.
\<close>

theorem repeated_label_cell_no_error:
  "2 \<le> length [''Skill:'', ''Skill:''] \<and> re_match_label (last [''Skill:'', ''Skill:'']) \<and>
   extract_metadata [(8, [''Skill:'', ''Skill:''])] = Inr [(''Skill'', ''Skill:'')]"
  by code_simp

subsection \<open>Fragment classification\<close>

lemma classify_loop_skips_absent:
  "classify_loop ls d t = classify_loop (filter (\<lambda>l. string_of l \<noteq> None) ls) d t"
proof (induction ls arbitrary: d t)
  case Nil
  then show ?case by simp
next
  case (Cons i rest)
  then show ?case
    by (cases "string_of i") (auto simp: Let_def split: sum.splits)
qed

text \<open>
  C4, as amended. A label whose \<^verbatim>\<open>.string\<close> is \<^verbatim>\<open>None\<close> is discarded by the
  classification loop, whatever its style: the data list and the header list, and so
  the grid, are those of the input without that label.
\<close>

theorem absent_text_discarded:
  assumes "string_of l = None"
  shows "classify (xs @ l # ys) = classify (xs @ ys)"
proof -
  have "filter (\<lambda>l. string_of l \<noteq> None) (xs @ l # ys)
      = filter (\<lambda>l. string_of l \<noteq> None) (xs @ ys)"
    using assms by simp
  then show ?thesis
    unfolding classify_def
    using classify_loop_skips_absent[of "xs @ l # ys" "[]" "[]"]
          classify_loop_skips_absent[of "xs @ ys" "[]" "[]"]
    by simp
qed

theorem absent_text_discarded_witness:
  "string_of \<lparr>style_attr = Some ''top: px; left: 10px'', string_of = None\<rparr> = None \<and>
   classify ([\<lparr>style_attr = Some ''font:x; top:0px; left:0px'', string_of = Some ''09:15''\<rparr>]
             @ \<lparr>style_attr = Some ''top: px; left: 10px'', string_of = None\<rparr>
             # [\<lparr>style_attr = Some ''font:x; top:0px; left:50px'', string_of = Some ''John''\<rparr>])
     = Inr ([((0, 0), ''09:15''), ((0, 50), ''John'')], [])"
proof -
  have "classify ([\<lparr>style_attr = Some ''font:x; top:0px; left:0px'', string_of = Some ''09:15''\<rparr>]
             @ [\<lparr>style_attr = Some ''font:x; top:0px; left:50px'', string_of = Some ''John''\<rparr>])
     = Inr ([((0, 0), ''09:15''), ((0, 50), ''John'')], [])"
    by code_simp
  then show ?thesis
    using absent_text_discarded[of "\<lparr>style_attr = Some ''top: px; left: 10px'', string_of = None\<rparr>"
        "[\<lparr>style_attr = Some ''font:x; top:0px; left:0px'', string_of = Some ''09:15''\<rparr>]"
        "[\<lparr>style_attr = Some ''font:x; top:0px; left:50px'', string_of = Some ''John''\<rparr>]"]
    by simp
qed

text \<open>
  C4 as stated fails on a label whose text is whitespace only: the loop skips a label
  only when its \<^verbatim>\<open>.string\<close> is \<^verbatim>\<open>None\<close>, so the label is kept with the empty text and is
  a cell of the grid.
\<close>

theorem blank_text_kept:
  "strip '' '' = [] \<and>
   classify [\<lparr>style_attr = Some ''font:x; top:0px; left:0px'', string_of = Some '' ''\<rparr>]
     = Inr ([((0, 0), [])], []) \<and>
   sorted_rows_dict [((0, 0), [])] = [(0, [[]])]"
  by code_simp

subsection \<open>Grid assembly\<close>

lemma classify_loop_data:
  "classify_loop ls d0 t0 = Inr (d, t) \<Longrightarrow>
   \<exists>d'. d = d0 @ d' \<and>
        map (\<lambda>x. Inr (fst x)) d' = map index_of_label (filter (\<lambda>l. string_of l \<noteq> None) ls) \<and>
        map snd d' = map (\<lambda>l. py_replace [nbsp] '' '' (strip (the (string_of l))))
                       (filter (\<lambda>l. string_of l \<noteq> None) ls)"
proof (induction ls arbitrary: d0 t0)
  case Nil
  then show ?case by simp
next
  case (Cons i rest)
  show ?case
  proof (cases "string_of i")
    case None
    then show ?thesis using Cons by simp
  next
    case (Some s)
    from Cons.prems Some obtain f ij where f: "font_of i = Inr f" and ij: "index_of_label i = Inr ij"
      and rest: "classify_loop rest (d0 @ [(ij, py_replace [nbsp] '' '' (strip s))])
             (if f = header_font
              then t0 @ [re_split_bars (py_replace [nbsp] ''|'' (strip s))] else t0) = Inr (d, t)"
      by (auto simp: Let_def split: sum.splits)
    from Cons.IH[OF rest] obtain d' where
      "d = (d0 @ [(ij, py_replace [nbsp] '' '' (strip s))]) @ d'"
      "map (\<lambda>x. Inr (fst x)) d' = map index_of_label (filter (\<lambda>l. string_of l \<noteq> None) rest)"
      "map snd d' = map (\<lambda>l. py_replace [nbsp] '' '' (strip (the (string_of l))))
                       (filter (\<lambda>l. string_of l \<noteq> None) rest)"
      by blast
    then show ?thesis using Some ij
      by (intro exI[of _ "(ij, py_replace [nbsp] '' '' (strip s)) # d'"]) simp
  qed
qed

lemma finite_row_indices_set: "finite (row_indices_set d)"
  by (simp add: row_indices_set_def)

lemma keys_sorted_rows_dict: "map fst (sorted_rows_dict d) = row_indices_list d"
  by (simp add: sorted_rows_dict_def matrix_dict_def comp_def)

lemma set_row_indices_list: "set (row_indices_list d) = row_indices_set d"
  by (simp add: row_indices_list_def row_indices_set_def)

lemma distinct_keys_sorted_rows_dict: "distinct (map fst (sorted_rows_dict d))"
  by (simp add: keys_sorted_rows_dict row_indices_list_def)

lemma sorted_rows_dict_row:
  "(i, val) \<in> set (sorted_rows_dict d) \<longleftrightarrow>
     i \<in> row_indices_set d \<and>
     val = map snd (sort_key (\<lambda>x. snd (fst x)) (filter (\<lambda>j. fst (fst j) = i) d))"
  by (auto simp: sorted_rows_dict_def matrix_dict_def set_row_indices_list)

text \<open>
  C2, as amended. When every label with a text decodes, the data list holds one point
  for each label with a text, bold labels and labels with a blank text included; the
  grid has one row for each distinct row coordinate of that list, and the rows stand in
  strictly ascending order of the row coordinate.
\<close>

theorem grid_rows_are_row_coordinates:
  assumes "classify Label_elets = Inr (indexed_data, col_titles0)"
  shows "map index_of_label (filter (\<lambda>l. string_of l \<noteq> None) Label_elets)
           = map (\<lambda>x. Inr (fst x)) indexed_data \<and>
         length (sorted_rows_dict indexed_data)
           = card (set (map (\<lambda>x. fst (fst x)) indexed_data)) \<and>
         set (map fst (sorted_rows_dict indexed_data))
           = set (map (\<lambda>x. fst (fst x)) indexed_data) \<and>
         sorted_wrt (<) (map fst (sorted_rows_dict indexed_data))"
proof -
  from classify_loop_data[OF assms[unfolded classify_def]]
  have "map index_of_label (filter (\<lambda>l. string_of l \<noteq> None) Label_elets)
           = map (\<lambda>x. Inr (fst x)) indexed_data"
    by auto
  moreover have "length (sorted_rows_dict indexed_data)
           = card (set (map (\<lambda>x. fst (fst x)) indexed_data))"
    using arg_cong[OF keys_sorted_rows_dict[of indexed_data], of length]
    by (simp add: row_indices_list_def row_indices_set_def)
  moreover have "set (map fst (sorted_rows_dict indexed_data))
           = set (map (\<lambda>x. fst (fst x)) indexed_data)"
    by (simp only: keys_sorted_rows_dict set_row_indices_list row_indices_set_def)
  moreover have "sorted_wrt (<) (map fst (sorted_rows_dict indexed_data))"
    by (simp add: keys_sorted_rows_dict row_indices_list_def)
  ultimately show ?thesis by blast
qed

theorem grid_rows_are_row_coordinates_witness:
  "classify
     [\<lparr>style_attr = Some ''font:x; top:10px; left:0px'', string_of = Some ''09:16''\<rparr>,
      \<lparr>style_attr = Some ''font:bold 12px verdana; top:0px; left:50px'', string_of = Some ''Agent''\<rparr>,
      \<lparr>style_attr = Some ''font:x; top:10px; left:50px'', string_of = Some ''Jane''\<rparr>]
     = Inr ([((10, 0), ''09:16''), ((0, 50), ''Agent''), ((10, 50), ''Jane'')], [[''Agent'']]) \<and>
   length (sorted_rows_dict [((10, 0), ''09:16''), ((0, 50), ''Agent''), ((10, 50), ''Jane'')]) = 2 \<and>
   map fst (sorted_rows_dict [((10, 0), ''09:16''), ((0, 50), ''Agent''), ((10, 50), ''Jane'')])
     = [0, 10]"
proof -
  have c: "classify
     [\<lparr>style_attr = Some ''font:x; top:10px; left:0px'', string_of = Some ''09:16''\<rparr>,
      \<lparr>style_attr = Some ''font:bold 12px verdana; top:0px; left:50px'', string_of = Some ''Agent''\<rparr>,
      \<lparr>style_attr = Some ''font:x; top:10px; left:50px'', string_of = Some ''Jane''\<rparr>]
     = Inr ([((10, 0), ''09:16''), ((0, 50), ''Agent''), ((10, 50), ''Jane'')], [[''Agent'']])"
    by code_simp
  have k: "map fst (sorted_rows_dict [((10, 0), ''09:16''), ((0, 50), ''Agent''), ((10, 50), ''Jane'')])
     = [0, 10]"
    by code_simp
  have "card (set (map (\<lambda>x. fst (fst x)) [((10::int, 0::int), ''09:16''), ((0, 50), ''Agent''), ((10, 50), ''Jane'')])) = 2"
    by (simp add: card_insert_if)
  with grid_rows_are_row_coordinates[OF c] c k show ?thesis by simp
qed

text \<open>
  C2 as stated counts the row coordinates of the labels that are not bold and have a
  text that is not blank. A bold label is a point of the data list as well: here the grid
  has two rows, and the only label that is not bold stands on one row coordinate.
\<close>

theorem header_label_makes_grid_row:
  "classify
     [\<lparr>style_attr = Some ''font:bold 12px verdana; top:0px; left:50px'', string_of = Some ''Agent''\<rparr>,
      \<lparr>style_attr = Some ''font:x; top:10px; left:0px'', string_of = Some ''09:16''\<rparr>]
     = Inr ([((0, 50), ''Agent''), ((10, 0), ''09:16'')], [[''Agent'']]) \<and>
   sorted_rows_dict [((0, 50), ''Agent''), ((10, 0), ''09:16'')]
     = [(0, [''Agent'']), (10, [''09:16''])] \<and>
   map index_of_label
     (data_fragments_spec
        [\<lparr>style_attr = Some ''font:bold 12px verdana; top:0px; left:50px'', string_of = Some ''Agent''\<rparr>,
         \<lparr>style_attr = Some ''font:x; top:10px; left:0px'', string_of = Some ''09:16''\<rparr>])
     = [Inr (10, 0)]"
  by code_simp

subsection \<open>Cells at one coordinate\<close>

text \<open>
  C5, as amended. The row of the grid for a row coordinate holds every point of the
  data list with that row coordinate, ordered by column coordinate, and the points that
  share a column coordinate as well stand in it in the order of the document: none
  replaces another, and the assembly of the grid raises nothing.
\<close>

theorem same_coordinate_cells_all_kept:
  assumes "i \<in> row_indices_set indexed_data"
  shows "\<exists>m. (i, map snd m) \<in> set (sorted_rows_dict indexed_data) \<and>
             mset m = mset (filter (\<lambda>j. fst (fst j) = i) indexed_data) \<and>
             sorted (map (\<lambda>x. snd (fst x)) m) \<and>
             (\<forall>c. filter (\<lambda>j. snd (fst j) = c) m = filter (\<lambda>j. fst j = (i, c)) indexed_data)"
proof -
  let ?m = "sort_key (\<lambda>x. snd (fst x)) (filter (\<lambda>j. fst (fst j) = i) indexed_data)"
  have "(i, map snd ?m) \<in> set (sorted_rows_dict indexed_data)"
    using assms by (simp add: sorted_rows_dict_row)
  moreover have "mset ?m = mset (filter (\<lambda>j. fst (fst j) = i) indexed_data)"
    by simp
  moreover have "sorted (map (\<lambda>x. snd (fst x)) ?m)"
    by simp
  moreover have "filter (\<lambda>j. snd (fst j) = c) ?m = filter (\<lambda>j. fst j = (i, c)) indexed_data" for c
  proof -
    have "filter (\<lambda>j. snd (fst j) = c) ?m
        = filter (\<lambda>j. snd (fst j) = c) (filter (\<lambda>j. fst (fst j) = i) indexed_data)"
      by (rule sort_key_stable)
    also have "\<dots> = filter (\<lambda>j. fst j = (i, c)) indexed_data"
      by (auto simp: prod_eq_iff intro: filter_cong)
    finally show ?thesis .
  qed
  ultimately show ?thesis by blast
qed

theorem same_coordinate_cells_all_kept_witness:
  "(10::int) \<in> row_indices_set [((10, 50), ''John''), ((10, 0), ''09:15''), ((10, 50), ''Jane'')] \<and>
   (\<exists>m. (10, map snd m) \<in> set (sorted_rows_dict [((10, 50), ''John''), ((10, 0), ''09:15''), ((10, 50), ''Jane'')]) \<and>
        filter (\<lambda>j. snd (fst j) = 50) m = [((10::int, 50::int), ''John''), ((10, 50), ''Jane'')]) \<and>
   sorted_rows_dict [((10, 50), ''John''), ((10, 0), ''09:15''), ((10, 50), ''Jane'')]
     = [(10, [''09:15'', ''John'', ''Jane''])]"
proof -
  have i: "(10::int) \<in> row_indices_set [((10, 50), ''John''), ((10, 0), ''09:15''), ((10, 50), ''Jane'')]"
    by (simp add: row_indices_set_def)
  have f: "filter (\<lambda>j. fst j = (10::int, 50::int)) [((10, 50), ''John''), ((10, 0), ''09:15''), ((10, 50), ''Jane'')]
         = [((10, 50), ''John''), ((10, 50), ''Jane'')]"
    by simp
  have s: "sorted_rows_dict [((10, 50), ''John''), ((10, 0), ''09:15''), ((10, 50), ''Jane'')]
     = [(10, [''09:15'', ''John'', ''Jane''])]"
    by code_simp
  from same_coordinate_cells_all_kept[OF i] obtain m where
    "(10, map snd m) \<in> set (sorted_rows_dict [((10, 50), ''John''), ((10, 0), ''09:15''), ((10, 50), ''Jane'')])"
    "\<forall>c. filter (\<lambda>j. snd (fst j) = c) m = filter (\<lambda>j. fst j = (10::int, c::int)) [((10, 50), ''John''), ((10, 0), ''09:15''), ((10, 50), ''Jane'')]"
    by blast
  then have "(10, map snd m) \<in> set (sorted_rows_dict [((10, 50), ''John''), ((10, 0), ''09:15''), ((10, 50), ''Jane'')]) \<and>
        filter (\<lambda>j. snd (fst j) = 50) m = [((10::int, 50::int), ''John''), ((10, 50), ''Jane'')]"
    using f by simp
  then show ?thesis using i s by blast
qed

subsection \<open>The frame\<close>

lemma length_le_frame_width: "(k, val) \<in> set g \<Longrightarrow> length val \<le> frame_width g"
proof -
  assume "(k, val) \<in> set g"
  then have "length val \<in> set (0 # map (\<lambda>(k, r). length r) g)" by force
  then show ?thesis unfolding frame_width_def by (intro Max_ge) auto
qed

lemma length_from_dict_row:
  assumes "(k, r) \<in> set (from_dict g)"
  shows "length r = frame_width g"
proof -
  from assms obtain val where "(k, val) \<in> set g"
    and r: "r = map Str val @ replicate (frame_width g - length val) NaN"
    by (auto simp: from_dict_def)
  with length_le_frame_width[of k val g] show ?thesis by simp
qed

lemma length_clean_rows_row:
  assumes "(k, r) \<in> set (clean_rows df)"
  shows "\<exists>r0. (k, r0) \<in> set df \<and> length r = length r0"
  using assms
  by (fastforce simp: clean_rows_def on_column0_def dropna0_def drop_letter_rows_def)

lemma insert_metadata_result:
  "insert_metadata md df = Inr df' \<Longrightarrow>
   columns df' = rev (map fst md) @ columns df \<and>
   rows df' = map (\<lambda>r. rev (map snd md) @ r) (rows df)"
proof (induction md arbitrary: df)
  case Nil
  then show ?case by simp
next
  case (Cons p md)
  obtain k v where p: "p = (k, v)" by (cases p)
  from Cons.prems have "insert_metadata md \<lparr>columns = k # columns df, rows = map (\<lambda>r. v # r) (rows df)\<rparr> = Inr df'"
    unfolding p by (simp split: if_splits)
  from Cons.IH[OF this] show ?case unfolding p by (simp add: comp_def)
qed

lemma normalize_result:
  assumes "normalize g hs md = Inr df1"
  shows "length hs = frame_width g"
    and "columns df1 = rev (map fst md) @ hs"
    and "rows df1 = map (\<lambda>(k, r). rev (map snd md) @ r) (clean_rows (from_dict g))"
proof -
  from assms have w: "length hs = frame_width g"
    and i: "insert_metadata md \<lparr>columns = hs, rows = map snd (clean_rows (from_dict g))\<rparr> = Inr df1"
    by (auto simp: normalize_def split: if_splits)
  show "length hs = frame_width g" by (fact w)
  from insert_metadata_result[OF i] show "columns df1 = rev (map fst md) @ hs"
    and "rows df1 = map (\<lambda>(k, r). rev (map snd md) @ r) (clean_rows (from_dict g))"
    by (simp_all add: comp_def split_def)
qed

lemma core_stages:
  assumes "core strptime ls = Inr (hs, md, df1)"
  obtains d t md0 where "classify ls = Inr (d, t)" "final_col_titles t = Inr hs"
    "extract_metadata (sorted_rows_dict d) = Inr md0" "fix_timestamp strptime md0 = Inr md"
    "normalize (sorted_rows_dict d) hs md = Inr df1"
  using assms by (auto simp: core_def split: sum.splits prod.splits)

subsection \<open>The metadata dictionary\<close>

lemma metadata_cells_distinct:
  "metadata_cells val cells md = Inr md' \<Longrightarrow> distinct (map fst md) \<Longrightarrow> distinct (map fst md')"
  by (induction cells arbitrary: md) (auto split: if_splits simp: distinct_update)

lemma metadata_single_distinct:
  "metadata_single v md = Inr md' \<Longrightarrow> distinct (map fst md) \<Longrightarrow> distinct (map fst md')"
  by (auto simp: metadata_single_def distinct_update split: if_splits list.splits)

lemma metadata_loop_distinct:
  "metadata_loop g md = Inr md' \<Longrightarrow> distinct (map fst md) \<Longrightarrow> distinct (map fst md')"
proof (induction g arbitrary: md)
  case Nil
  then show ?case by simp
next
  case (Cons p g)
  obtain k val where p: "p = (k, val)" by (cases p)
  from Cons.prems(1) obtain md1 where
    s: "(if length val = 1 then metadata_single (val ! 0) md else metadata_cells val val md) = Inr md1"
    and r: "metadata_loop g md1 = Inr md'"
    unfolding p by (auto split: sum.splits)
  from s Cons.prems(2) have "distinct (map fst md1)"
    by (auto split: if_splits dest: metadata_single_distinct metadata_cells_distinct)
  from Cons.IH[OF r this] show ?case .
qed

lemma fix_timestamp_distinct:
  assumes "fix_timestamp strptime md0 = Inr md" "distinct (map fst md0)"
  shows "distinct (map fst md)"
proof -
  from assms(1) obtain ts where
    "md = AList.update ''Date'' (Dt ts) (map (\<lambda>(k, v). (k, Str v)) md0)"
    by (auto simp: fix_timestamp_def split: option.splits)
  moreover have "distinct (map fst (map (\<lambda>(k, v). (k, Str v :: 'a cell)) md0))"
    using assms(2) by (simp add: comp_def split_def)
  ultimately show ?thesis by (simp only: distinct_update)
qed

subsection \<open>Shape of the table\<close>

text \<open>
  C8. In every table that a run produces, each row has as many cells as there are
  column names and metadata entries together, and the columns of the table, which all
  its rows share, are the metadata keys (the last inserted first) followed by the column
  names; the keys of the metadata dictionary are distinct, so its length is the number
  of its keys.
\<close>

theorem table_shape:
  assumes "core strptime Label_elets = Inr (final_titles, metadata_dict, df1 :: 'd frame)"
  shows "(\<forall>r \<in> set (rows df1). length r = length final_titles + length metadata_dict) \<and>
         columns df1 = rev (map fst metadata_dict) @ final_titles \<and>
         distinct (map fst metadata_dict)"
proof -
  from assms obtain d t md0 where md0: "extract_metadata (sorted_rows_dict d) = Inr md0"
    and ft: "fix_timestamp strptime md0 = Inr metadata_dict"
    and norm: "normalize (sorted_rows_dict d) final_titles metadata_dict = Inr df1"
    by (rule core_stages)
  note n = normalize_result[OF norm]
  have "length r = length final_titles + length metadata_dict" if "r \<in> set (rows df1)" for r
  proof -
    from that n(3) obtain k r1 where kr: "(k, r1) \<in> set (clean_rows (from_dict (sorted_rows_dict d)))"
      and r: "r = rev (map snd metadata_dict) @ r1" by auto
    from length_clean_rows_row[OF kr] obtain r0 where
      r0: "(k, r0 :: 'd cell list) \<in> set (from_dict (sorted_rows_dict d))"
      and "length r1 = length r0"
      by blast
    then have "length r1 = frame_width (sorted_rows_dict d)"
      using length_from_dict_row[OF r0] by simp
    then show ?thesis using r n(1) by simp
  qed
  moreover have "distinct (map fst md0)"
    using metadata_loop_distinct[OF md0[unfolded extract_metadata_def]] by simp
  then have "distinct (map fst metadata_dict)"
    using fix_timestamp_distinct[OF ft] by simp
  ultimately show ?thesis using n(2) by blast
qed

theorem table_shape_witness:
  "core strptime_sample
     [\<lparr>style_attr = Some ''font:bold 12px verdana; top:0px; left:50px'', string_of = Some ''Agent|Skill''\<rparr>,
      \<lparr>style_attr = Some ''font:bold 12px verdana; top:5px; left:50px'', string_of = Some ''Name|Id''\<rparr>,
      \<lparr>style_attr = Some ''font:x; top:8px; left:0px'', string_of = Some ''Date:''\<rparr>,
      \<lparr>style_attr = Some ''font:x; top:8px; left:50px'', string_of = Some ''10:00 AM Mon Jan 01, 2024''\<rparr>,
      \<lparr>style_attr = Some ''font:x; top:10px; left:0px'', string_of = Some ''09:15''\<rparr>,
      \<lparr>style_attr = Some ''font:x; top:10px; left:50px'', string_of = Some ''John''\<rparr>,
      \<lparr>style_attr = Some ''font:x; top:10px; left:90px'', string_of = Some ''7''\<rparr>,
      \<lparr>style_attr = Some ''font:x; top:20px; left:0px'', string_of = Some ''09:16''\<rparr>,
      \<lparr>style_attr = Some ''font:x; top:20px; left:50px'', string_of = Some ''Jane''\<rparr>]
   = Inr ([''TIME'', ''Agent Name'', ''Skill Id''], [(''Date'', Dt (2024, 1, 1, 10, 0))],
       \<lparr>columns = [''Date'', ''TIME'', ''Agent Name'', ''Skill Id''],
          rows = [[Dt (2024, 1, 1, 10, 0), Str ''09:15'', Str ''John'', Str ''7''],
                  [Dt (2024, 1, 1, 10, 0), Str ''09:16'', Str ''Jane'', NaN]]\<rparr>) \<and>
   map length [[Dt (2024, 1, 1, 10, 0), Str ''09:15'', Str ''John'', Str ''7''],
               [Dt (2024, 1, 1, 10, 0), Str ''09:16'', Str ''Jane'',
                NaN :: (nat \<times> nat \<times> nat \<times> nat \<times> nat) cell]]
     = [length [''TIME'', ''Agent Name'', ''Skill Id''] + length [(''Date'', Dt (2024, 1, 1, 10, 0))],
        length [''TIME'', ''Agent Name'', ''Skill Id''] + length [(''Date'', Dt (2024, 1, 1, 10, 0))]]"
proof -
  have c: "core strptime_sample
     [\<lparr>style_attr = Some ''font:bold 12px verdana; top:0px; left:50px'', string_of = Some ''Agent|Skill''\<rparr>,
      \<lparr>style_attr = Some ''font:bold 12px verdana; top:5px; left:50px'', string_of = Some ''Name|Id''\<rparr>,
      \<lparr>style_attr = Some ''font:x; top:8px; left:0px'', string_of = Some ''Date:''\<rparr>,
      \<lparr>style_attr = Some ''font:x; top:8px; left:50px'', string_of = Some ''10:00 AM Mon Jan 01, 2024''\<rparr>,
      \<lparr>style_attr = Some ''font:x; top:10px; left:0px'', string_of = Some ''09:15''\<rparr>,
      \<lparr>style_attr = Some ''font:x; top:10px; left:50px'', string_of = Some ''John''\<rparr>,
      \<lparr>style_attr = Some ''font:x; top:10px; left:90px'', string_of = Some ''7''\<rparr>,
      \<lparr>style_attr = Some ''font:x; top:20px; left:0px'', string_of = Some ''09:16''\<rparr>,
      \<lparr>style_attr = Some ''font:x; top:20px; left:50px'', string_of = Some ''Jane''\<rparr>]
   = Inr ([''TIME'', ''Agent Name'', ''Skill Id''], [(''Date'', Dt (2024, 1, 1, 10, 0))],
       \<lparr>columns = [''Date'', ''TIME'', ''Agent Name'', ''Skill Id''],
          rows = [[Dt (2024, 1, 1, 10, 0), Str ''09:15'', Str ''John'', Str ''7''],
                  [Dt (2024, 1, 1, 10, 0), Str ''09:16'', Str ''Jane'', NaN]]\<rparr>)"
    by code_simp
  from table_shape[OF c] c show ?thesis by simp
qed

subsection \<open>Rows that the normaliser keeps\<close>

lemma all_dashes_contains_dashes:
  assumes "2 \<le> length c" "set c \<subseteq> {CHR ''-''}"
  shows "contains_dashes c"
proof -
  from assms(1) obtain a b cs where "c = a # b # cs"
    by (cases c; cases "tl c") auto
  with assms(2) show ?thesis by simp
qed

lemma sorted_rows_dict_row_nonempty:
  assumes "(k, val) \<in> set (sorted_rows_dict d)"
  shows "val \<noteq> []"
proof -
  from assms have k: "k \<in> row_indices_set d"
    and v: "val = map snd (sort_key (\<lambda>x. snd (fst x)) (filter (\<lambda>j. fst (fst j) = k) d))"
    by (simp_all add: sorted_rows_dict_row)
  from k obtain x where "x \<in> set d" "fst (fst x) = k" by (auto simp: row_indices_set_def)
  then have "filter (\<lambda>j. fst (fst j) = k) d \<noteq> []" by (auto simp: filter_empty_conv)
  moreover have "length val = length (filter (\<lambda>j. fst (fst j) = k) d)"
    unfolding v by simp
  ultimately show ?thesis by (metis length_0_conv)
qed

lemma sorted_rows_dict_cells:
  assumes "(k, val) \<in> set (sorted_rows_dict d)" "c \<in> set val"
  shows "c \<in> snd ` set d"
proof -
  from assms(1) have "val = map snd (sort_key (\<lambda>x. snd (fst x)) (filter (\<lambda>j. fst (fst j) = k) d))"
    by (simp add: sorted_rows_dict_row)
  with assms(2) show ?thesis by auto
qed

lemma hd_strip_not_space:
  assumes "strip s \<noteq> []"
  shows "\<not> isspace (hd (strip s))"
proof -
  define t where "t = dropWhile isspace s"
  have "t = rev (takeWhile isspace (rev t) @ dropWhile isspace (rev t))"
    by (simp only: takeWhile_dropWhile_id rev_rev_ident)
  also have "\<dots> = rev (dropWhile isspace (rev t)) @ rev (takeWhile isspace (rev t))"
    by (simp only: rev_append)
  finally have t: "t = strip s @ rev (takeWhile isspace (rev t))"
    by (simp only: strip_def t_def)
  with assms have "hd t = hd (strip s)" by (metis hd_append2)
  moreover have "t \<noteq> []" using t assms by auto
  then have "\<not> isspace (hd t)" unfolding t_def by (rule hd_dropWhile)
  ultimately show ?thesis by simp
qed

lemma hd_cell_text_not_space:
  assumes "py_replace [nbsp] '' '' (strip s) \<noteq> []"
  shows "\<not> isspace (hd (py_replace [nbsp] '' '' (strip s)))"
proof (cases "strip s")
  case Nil
  with assms show ?thesis by simp
next
  case (Cons x xs)
  then have "\<not> isspace x" using hd_strip_not_space[of s] by simp
  moreover have "isspace nbsp" by (simp add: isspace_def nbsp_def)
  ultimately have "x \<noteq> nbsp" by auto
  then show ?thesis using Cons \<open>\<not> isspace x\<close> by simp
qed

lemma classify_cell_texts:
  assumes "classify ls = Inr (d, t)" "c \<in> snd ` set d"
  shows "\<exists>s. c = py_replace [nbsp] '' '' (strip s)"
proof -
  from classify_loop_data[OF assms(1)[unfolded classify_def]]
  have "map snd d = map (\<lambda>l. py_replace [nbsp] '' '' (strip (the (string_of l))))
                       (filter (\<lambda>l. string_of l \<noteq> None) ls)"
    by auto
  then have "snd ` set d = (\<lambda>l. py_replace [nbsp] '' '' (strip (the (string_of l))))
                       ` set (filter (\<lambda>l. string_of l \<noteq> None) ls)"
    by (metis set_map)
  with assms(2) show ?thesis by auto
qed

lemma remove_spaces_keeps_visible:
  assumes "c \<noteq> []" "\<not> isspace (hd c)"
  shows "\<exists>ch \<in> set (remove_spaces c). \<not> isspace ch"
proof -
  have "isspace (CHR '' '')" by (simp add: isspace_def)
  with assms(2) have "hd c \<noteq> CHR '' ''" by auto
  with assms(1) have "hd c \<in> set (remove_spaces c)" by (simp add: remove_spaces_def)
  with assms(2) show ?thesis by blast
qed

lemma remove_spaces_no_letter:
  "\<not> contains_letter c \<Longrightarrow> \<not> contains_letter (remove_spaces c)"
  by (auto simp: contains_letter_def remove_spaces_def)

lemma clean_rows_padded:
  assumes "\<forall>(k, val) \<in> set g. val \<noteq> []"
  shows "clean_rows (map (\<lambda>(k, r). (k, map Str r @ replicate (w - length r) NaN)) g)
       = map (\<lambda>(k, val). (k, kept_row w val))
           (filter (\<lambda>(k, val). \<not> first_cell_dropped (hd val)) g)"
  using assms
proof (induction g)
  case Nil
  then show ?case
    by (simp add: clean_rows_def on_column0_def dropna0_def drop_letter_rows_def)
next
  case (Cons p g)
  obtain k val where p: "p = (k, val)" by (cases p)
  from Cons.prems obtain c cs where val: "val = c # cs" unfolding p by (cases val) auto
  from Cons.prems have "\<forall>(k, val) \<in> set g. val \<noteq> []" by simp
  note IH = Cons.IH[OF this]
  show ?case
    using IH unfolding p val
    by (simp add: clean_rows_def on_column0_def dropna0_def drop_letter_rows_def
        first_cell_dropped_def kept_row_def)
qed

lemma clean_rows_from_dict:
  assumes "\<forall>(k, val) \<in> set g. val \<noteq> []"
  shows "clean_rows (from_dict g)
       = map (\<lambda>(k, val). (k, kept_row (frame_width g) val))
           (filter (\<lambda>(k, val). \<not> first_cell_dropped (hd val)) g)"
  unfolding from_dict_def by (rule clean_rows_padded[OF assms])

lemma clean_rows_sorted_rows_dict:
  "clean_rows (from_dict (sorted_rows_dict d))
     = map (\<lambda>(k, val). (k, kept_row (frame_width (sorted_rows_dict d)) val))
         (filter (\<lambda>(k, val). \<not> first_cell_dropped (hd val)) (sorted_rows_dict d))"
  by (rule clean_rows_from_dict) (auto dest: sorted_rows_dict_row_nonempty)

subsection \<open>First cells of the table\<close>

lemma core_rows:
  assumes "core strptime ls = Inr (hs, md, df1)" and "classify ls = Inr (d, t)"
  shows "length hs = frame_width (sorted_rows_dict d)"
    and "rows df1 = map (\<lambda>(k, r). rev (map snd md) @ r) (clean_rows (from_dict (sorted_rows_dict d)))"
proof -
  from assms(1) obtain d' t' where "classify ls = Inr (d', t')"
    and n: "normalize (sorted_rows_dict d') hs md = Inr df1"
    by (rule core_stages)
  with assms(2) have "d' = d" by simp
  with normalize_result[OF n]
  show "length hs = frame_width (sorted_rows_dict d)"
    and "rows df1 = map (\<lambda>(k, r). rev (map snd md) @ r) (clean_rows (from_dict (sorted_rows_dict d)))"
    by simp_all
qed

text \<open>
  C7, as amended. The rows of the table are the rows of the grid whose first cell
  holds no letter, is not empty and holds no two dashes in a row (a cell of two or more
  dashes and nothing else holds them), each with the metadata values in front, the
  spaces taken out of its first cell and missing values at its end; the other rows of
  the grid are dropped whole. The cell of a table row in the first named column holds
  no letter and is not blank.
\<close>

theorem table_rows_pass_first_cell_tests:
  assumes "core strptime Label_elets = Inr (final_titles, metadata_dict, df1)"
    and "classify Label_elets = Inr (indexed_data, col_titles0)"
  shows "rows df1 =
           map (\<lambda>(k, val). rev (map snd metadata_dict) @ kept_row (length final_titles) val)
             (filter (\<lambda>(k, val). \<not> first_cell_dropped (hd val)) (sorted_rows_dict indexed_data)) \<and>
         (\<forall>r \<in> set (rows df1). \<exists>s. r ! length metadata_dict = Str s \<and>
              \<not> contains_letter s \<and> (\<exists>ch \<in> set s. \<not> isspace ch)) \<and>
         (\<forall>c. 2 \<le> length c \<and> set c \<subseteq> {CHR ''-''} \<longrightarrow> first_cell_dropped c)"
proof -
  note cr = core_rows[OF assms]
  let ?g = "sorted_rows_dict indexed_data"
  have eq: "rows df1 =
           map (\<lambda>(k, val). rev (map snd metadata_dict) @ kept_row (length final_titles) val)
             (filter (\<lambda>(k, val). \<not> first_cell_dropped (hd val)) ?g)"
    unfolding cr(2) clean_rows_sorted_rows_dict cr(1) by (simp add: split_def comp_def)
  have cell: "\<exists>s. r ! length metadata_dict = Str s \<and>
              \<not> contains_letter s \<and> (\<exists>ch \<in> set s. \<not> isspace ch)"
    if "r \<in> set (rows df1)" for r
  proof -
    from that eq obtain k val where kv: "(k, val) \<in> set ?g"
      and keep: "\<not> first_cell_dropped (hd val)"
      and r: "r = rev (map snd metadata_dict) @ kept_row (length final_titles) val"
      by auto
    from kv have "val \<noteq> []" by (rule sorted_rows_dict_row_nonempty)
    then have "hd val \<in> set val" by simp
    with kv have "hd val \<in> snd ` set indexed_data" by (rule sorted_rows_dict_cells)
    with assms(2) obtain s0 where s0: "hd val = py_replace [nbsp] '' '' (strip s0)"
      using classify_cell_texts by blast
    from keep have ne: "hd val \<noteq> []" and nl: "\<not> contains_letter (hd val)"
      by (simp_all add: first_cell_dropped_def)
    from ne have "\<not> isspace (hd (hd val))"
      unfolding s0 by (rule hd_cell_text_not_space)
    with ne have "\<exists>ch \<in> set (remove_spaces (hd val)). \<not> isspace ch"
      by (rule remove_spaces_keeps_visible)
    moreover have "\<not> contains_letter (remove_spaces (hd val))"
      using nl by (rule remove_spaces_no_letter)
    moreover have "r ! length metadata_dict = Str (remove_spaces (hd val))"
      unfolding r by (simp add: nth_append kept_row_def)
    ultimately show ?thesis by blast
  qed
  have "first_cell_dropped c" if "2 \<le> length c \<and> set c \<subseteq> {CHR ''-''}" for c
    using that all_dashes_contains_dashes[of c] by (simp add: first_cell_dropped_def)
  with eq cell show ?thesis by blast
qed

lemma sample_run:
  "core strptime_sample
     [\<lparr>style_attr = Some ''font:bold 12px verdana; top:0px; left:50px'', string_of = Some ''Agent''\<rparr>,
      \<lparr>style_attr = Some ''font:bold 12px verdana; top:5px; left:50px'', string_of = Some ''Name''\<rparr>,
      \<lparr>style_attr = Some ''font:x; top:8px; left:0px'', string_of = Some ''Date:''\<rparr>,
      \<lparr>style_attr = Some ''font:x; top:8px; left:50px'', string_of = Some ''10:00 AM Mon Jan 01, 2024''\<rparr>,
      \<lparr>style_attr = Some ''font:x; top:10px; left:0px'', string_of = Some ''--''\<rparr>,
      \<lparr>style_attr = Some ''font:x; top:10px; left:50px'', string_of = Some ''Totals''\<rparr>,
      \<lparr>style_attr = Some ''font:x; top:20px; left:0px'', string_of = Some ''09 : 16''\<rparr>,
      \<lparr>style_attr = Some ''font:x; top:20px; left:50px'', string_of = Some ''Jane''\<rparr>]
   = Inr ([''TIME'', ''Agent Name''], [(''Date'', Dt (2024, 1, 1, 10, 0))],
       \<lparr>columns = [''Date'', ''TIME'', ''Agent Name''],
          rows = [[Dt (2024, 1, 1, 10, 0), Str ''09:16'', Str ''Jane'']]\<rparr>)"
  by code_simp

lemma sample_classify:
  "classify
     [\<lparr>style_attr = Some ''font:bold 12px verdana; top:0px; left:50px'', string_of = Some ''Agent''\<rparr>,
      \<lparr>style_attr = Some ''font:bold 12px verdana; top:5px; left:50px'', string_of = Some ''Name''\<rparr>,
      \<lparr>style_attr = Some ''font:x; top:8px; left:0px'', string_of = Some ''Date:''\<rparr>,
      \<lparr>style_attr = Some ''font:x; top:8px; left:50px'', string_of = Some ''10:00 AM Mon Jan 01, 2024''\<rparr>,
      \<lparr>style_attr = Some ''font:x; top:10px; left:0px'', string_of = Some ''--''\<rparr>,
      \<lparr>style_attr = Some ''font:x; top:10px; left:50px'', string_of = Some ''Totals''\<rparr>,
      \<lparr>style_attr = Some ''font:x; top:20px; left:0px'', string_of = Some ''09 : 16''\<rparr>,
      \<lparr>style_attr = Some ''font:x; top:20px; left:50px'', string_of = Some ''Jane''\<rparr>]
   = Inr ([((0, 50), ''Agent''), ((5, 50), ''Name''), ((8, 0), ''Date:''),
           ((8, 50), ''10:00 AM Mon Jan 01, 2024''), ((10, 0), ''--''), ((10, 50), ''Totals''),
           ((20, 0), ''09 : 16''), ((20, 50), ''Jane'')],
          [[''Agent''], [''Name'']])"
  by code_simp

lemma sample_grid:
  "sorted_rows_dict
     [((0, 50), ''Agent''), ((5, 50), ''Name''), ((8, 0), ''Date:''),
      ((8, 50), ''10:00 AM Mon Jan 01, 2024''), ((10, 0), ''--''), ((10, 50), ''Totals''),
      ((20, 0), ''09 : 16''), ((20, 50), ''Jane'')]
   = [(0, [''Agent'']), (5, [''Name'']), (8, [''Date:'', ''10:00 AM Mon Jan 01, 2024'']),
      (10, [''--'', ''Totals'']), (20, [''09 : 16'', ''Jane''])]"
  by code_simp

theorem table_rows_pass_first_cell_tests_witness:
  "core strptime_sample
     [\<lparr>style_attr = Some ''font:bold 12px verdana; top:0px; left:50px'', string_of = Some ''Agent''\<rparr>,
      \<lparr>style_attr = Some ''font:bold 12px verdana; top:5px; left:50px'', string_of = Some ''Name''\<rparr>,
      \<lparr>style_attr = Some ''font:x; top:8px; left:0px'', string_of = Some ''Date:''\<rparr>,
      \<lparr>style_attr = Some ''font:x; top:8px; left:50px'', string_of = Some ''10:00 AM Mon Jan 01, 2024''\<rparr>,
      \<lparr>style_attr = Some ''font:x; top:10px; left:0px'', string_of = Some ''--''\<rparr>,
      \<lparr>style_attr = Some ''font:x; top:10px; left:50px'', string_of = Some ''Totals''\<rparr>,
      \<lparr>style_attr = Some ''font:x; top:20px; left:0px'', string_of = Some ''09 : 16''\<rparr>,
      \<lparr>style_attr = Some ''font:x; top:20px; left:50px'', string_of = Some ''Jane''\<rparr>]
   = Inr ([''TIME'', ''Agent Name''], [(''Date'', Dt (2024, 1, 1, 10, 0))],
       \<lparr>columns = [''Date'', ''TIME'', ''Agent Name''],
          rows = [[Dt (2024, 1, 1, 10, 0), Str ''09:16'', Str ''Jane'']]\<rparr>) \<and>
   filter (\<lambda>(k, val). \<not> first_cell_dropped (hd val))
     [(0, [''Agent'']), (5, [''Name'']), (8, [''Date:'', ''10:00 AM Mon Jan 01, 2024'']),
      (10::int, [''--'', ''Totals'']), (20, [''09 : 16'', ''Jane''])]
   = [(20, [''09 : 16'', ''Jane''])] \<and>
   first_cell_dropped ''--''"
proof -
  from table_rows_pass_first_cell_tests[OF sample_run sample_classify]
  have "first_cell_dropped ''--''" by simp
  moreover have "filter (\<lambda>(k, val). \<not> first_cell_dropped (hd val))
     [(0, [''Agent'']), (5, [''Name'']), (8, [''Date:'', ''10:00 AM Mon Jan 01, 2024'']),
      (10::int, [''--'', ''Totals'']), (20, [''09 : 16'', ''Jane''])]
   = [(20, [''09 : 16'', ''Jane''])]"
    by code_simp
  ultimately show ?thesis using sample_run by simp
qed

text \<open>
  C7 as stated fails for the cells of dashes: the test for dashes comes before the
  spaces are taken out, so the first cell \<^verbatim>\<open>"- -"\<close> passes it and stands in the table as
  \<^verbatim>\<open>"--"\<close>.
\<close>

theorem spaced_dashes_reach_table:
  "core strptime_sample
     [\<lparr>style_attr = Some ''font:bold 12px verdana; top:0px; left:50px'', string_of = Some ''Agent''\<rparr>,
      \<lparr>style_attr = Some ''font:bold 12px verdana; top:5px; left:50px'', string_of = Some ''Name''\<rparr>,
      \<lparr>style_attr = Some ''font:x; top:8px; left:0px'', string_of = Some ''Date:''\<rparr>,
      \<lparr>style_attr = Some ''font:x; top:8px; left:50px'', string_of = Some ''10:00 AM Mon Jan 01, 2024''\<rparr>,
      \<lparr>style_attr = Some ''font:x; top:10px; left:0px'', string_of = Some ''- -''\<rparr>,
      \<lparr>style_attr = Some ''font:x; top:10px; left:50px'', string_of = Some ''John''\<rparr>]
   = Inr ([''TIME'', ''Agent Name''], [(''Date'', Dt (2024, 1, 1, 10, 0))],
       \<lparr>columns = [''Date'', ''TIME'', ''Agent Name''],
          rows = [[Dt (2024, 1, 1, 10, 0), Str ''--'', Str ''John'']]\<rparr>)"
  by code_simp

subsection \<open>Metadata rows in the table\<close>

text \<open>
  C1, as amended. The metadata loop takes no row out of the grid: the frame that the
  normaliser cleans is made from the whole grid, and the table holds the cleaned rows
  with the metadata values in front. A row on which the loop found an entry is a row of
  the table exactly when its first cell passes the first-cell tests of the normaliser;
  so a metadata row whose first cell holds a letter is not in the table.
\<close>

theorem metadata_rows_leave_by_first_cell_tests:
  assumes "core strptime Label_elets = Inr (final_titles, metadata_dict, df1 :: 'd frame)"
    and "classify Label_elets = Inr (indexed_data, col_titles0)"
    and "(k, val) \<in> set (sorted_rows_dict indexed_data)"
    and "is_metadata_row val"
  shows "rows df1 = map (\<lambda>(k, r). rev (map snd metadata_dict) @ r)
                      (clean_rows (from_dict (sorted_rows_dict indexed_data))) \<and>
         (k \<in> fst ` set (clean_rows (from_dict (sorted_rows_dict indexed_data)) :: 'd labelled_rows)
            \<longleftrightarrow> \<not> first_cell_dropped (hd val))"
proof -
  let ?g = "sorted_rows_dict indexed_data"
  have "fst ` set (clean_rows (from_dict ?g) :: 'd labelled_rows)
      = fst ` set (filter (\<lambda>(k, val). \<not> first_cell_dropped (hd val)) ?g)"
    unfolding clean_rows_sorted_rows_dict by force
  moreover have "k \<in> fst ` set (filter (\<lambda>(k, val). \<not> first_cell_dropped (hd val)) ?g)
                  \<longleftrightarrow> \<not> first_cell_dropped (hd val)"
  proof
    assume "k \<in> fst ` set (filter (\<lambda>(k, val). \<not> first_cell_dropped (hd val)) ?g)"
    then obtain val' where "(k, val') \<in> set ?g" "\<not> first_cell_dropped (hd val')" by auto
    moreover from this(1) assms(3) have "val' = val" by (simp add: sorted_rows_dict_row)
    ultimately show "\<not> first_cell_dropped (hd val)" by simp
  next
    assume "\<not> first_cell_dropped (hd val)"
    with assms(3) show "k \<in> fst ` set (filter (\<lambda>(k, val). \<not> first_cell_dropped (hd val)) ?g)"
      by force
  qed
  ultimately show ?thesis using core_rows(2)[OF assms(1,2)] by simp
qed

theorem metadata_rows_leave_by_first_cell_tests_witness:
  "(8, [''Date:'', ''10:00 AM Mon Jan 01, 2024''])
     \<in> set [(0, [''Agent'']), (5, [''Name'']), (8::int, [''Date:'', ''10:00 AM Mon Jan 01, 2024'']),
            (10, [''--'', ''Totals'']), (20, [''09 : 16'', ''Jane''])] \<and>
   is_metadata_row [''Date:'', ''10:00 AM Mon Jan 01, 2024''] \<and>
   first_cell_dropped (hd [''Date:'', ''10:00 AM Mon Jan 01, 2024'']) \<and>
   8 \<notin> fst ` set (clean_rows (from_dict
            [(0, [''Agent'']), (5, [''Name'']), (8::int, [''Date:'', ''10:00 AM Mon Jan 01, 2024'']),
             (10, [''--'', ''Totals'']), (20, [''09 : 16'', ''Jane''])])
          :: (nat \<times> nat \<times> nat \<times> nat \<times> nat) labelled_rows)"
proof -
  have m: "(8, [''Date:'', ''10:00 AM Mon Jan 01, 2024''])
     \<in> set (sorted_rows_dict
         [((0, 50), ''Agent''), ((5, 50), ''Name''), ((8, 0), ''Date:''),
          ((8, 50), ''10:00 AM Mon Jan 01, 2024''), ((10, 0), ''--''), ((10, 50), ''Totals''),
          ((20, 0), ''09 : 16''), ((20, 50), ''Jane'')])"
    unfolding sample_grid by simp
  have i: "is_metadata_row [''Date:'', ''10:00 AM Mon Jan 01, 2024'']" by code_simp
  have f: "first_cell_dropped (hd [''Date:'', ''10:00 AM Mon Jan 01, 2024''])" by code_simp
  from metadata_rows_leave_by_first_cell_tests[OF sample_run sample_classify m i] f
  have "8 \<notin> fst ` set (clean_rows (from_dict (sorted_rows_dict
         [((0, 50), ''Agent''), ((5, 50), ''Name''), ((8, 0), ''Date:''),
          ((8, 50), ''10:00 AM Mon Jan 01, 2024''), ((10, 0), ''--''), ((10, 50), ''Totals''),
          ((20, 0), ''09 : 16''), ((20, 50), ''Jane'')]))
          :: (nat \<times> nat \<times> nat \<times> nat \<times> nat) labelled_rows)"
    by simp
  then show ?thesis using i f unfolding sample_grid by simp
qed

text \<open>
  C1 as stated fails: the row \<^verbatim>\<open>["09:15", "Skill:", "Sales"]\<close> gives the metadata entry
  \<^verbatim>\<open>"Skill"\<close>, and it is a row of the table all the same, its first cell holding no letter.
\<close>

theorem metadata_row_reaches_table:
  "is_metadata_row [''09:15'', ''Skill:'', ''Sales''] \<and>
   core strptime_sample
     [\<lparr>style_attr = Some ''font:bold 12px verdana; top:0px; left:50px'', string_of = Some ''Agent|Skill''\<rparr>,
      \<lparr>style_attr = Some ''font:bold 12px verdana; top:5px; left:50px'', string_of = Some ''Name|Id''\<rparr>,
      \<lparr>style_attr = Some ''font:x; top:8px; left:0px'', string_of = Some ''Date:''\<rparr>,
      \<lparr>style_attr = Some ''font:x; top:8px; left:50px'', string_of = Some ''10:00 AM Mon Jan 01, 2024''\<rparr>,
      \<lparr>style_attr = Some ''font:x; top:10px; left:0px'', string_of = Some ''09:15''\<rparr>,
      \<lparr>style_attr = Some ''font:x; top:10px; left:50px'', string_of = Some ''Skill:''\<rparr>,
      \<lparr>style_attr = Some ''font:x; top:10px; left:90px'', string_of = Some ''Sales''\<rparr>]
   = Inr ([''TIME'', ''Agent Name'', ''Skill Id''],
          [(''Date'', Dt (2024, 1, 1, 10, 0)), (''Skill'', Str ''Sales'')],
       \<lparr>columns = [''Skill'', ''Date'', ''TIME'', ''Agent Name'', ''Skill Id''],
          rows = [[Str ''Sales'', Dt (2024, 1, 1, 10, 0), Str ''09:15'', Str ''Skill:'', Str ''Sales'']]\<rparr>)"
  by code_simp

subsection \<open>Runs on the examples of the other statements\<close>

text \<open>
  C5 as stated fails: two labels at the row coordinate 10 and the column coordinate 50
  are two cells of one row, the run ends without an error, and both are in the table.
\<close>

theorem same_coordinate_run_keeps_both:
  "core strptime_sample
     [\<lparr>style_attr = Some ''font:bold 12px verdana; top:0px; left:50px'', string_of = Some ''Agent|Skill''\<rparr>,
      \<lparr>style_attr = Some ''font:bold 12px verdana; top:5px; left:50px'', string_of = Some ''Name|Id''\<rparr>,
      \<lparr>style_attr = Some ''font:x; top:8px; left:0px'', string_of = Some ''Date:''\<rparr>,
      \<lparr>style_attr = Some ''font:x; top:8px; left:50px'', string_of = Some ''10:00 AM Mon Jan 01, 2024''\<rparr>,
      \<lparr>style_attr = Some ''font:x; top:10px; left:0px'', string_of = Some ''09:15''\<rparr>,
      \<lparr>style_attr = Some ''font:x; top:10px; left:50px'', string_of = Some ''John''\<rparr>,
      \<lparr>style_attr = Some ''font:x; top:10px; left:50px'', string_of = Some ''Jane''\<rparr>]
   = Inr ([''TIME'', ''Agent Name'', ''Skill Id''], [(''Date'', Dt (2024, 1, 1, 10, 0))],
       \<lparr>columns = [''Date'', ''TIME'', ''Agent Name'', ''Skill Id''],
          rows = [[Dt (2024, 1, 1, 10, 0), Str ''09:15'', Str ''John'', Str ''Jane'']]\<rparr>)"
  by code_simp

subsection \<open>Styles without a numeric coordinate\<close>

lemma isdigit_not_underscore: "isdigit c \<Longrightarrow> c \<noteq> CHR ''_''"
  by (auto simp: isdigit_def)

lemma parse_digits_decimal_body:
  "isdigit d \<Longrightarrow> (parse_digits acc b = None) = (\<not> decimal_body (d # b))"
proof (induction acc b arbitrary: d rule: parse_digits.induct)
  case (1 acc)
  then show ?case by (simp add: decimal_body_def)
next
  case (2 acc c)
  then show ?case by (auto simp: decimal_body_def dest: isdigit_not_underscore)
next
  case (3 acc c e es)
  show ?case
  proof (cases "isdigit c")
    case True
    from "3.IH"(1)[OF True True] True "3.prems" show ?thesis
      by (auto simp: decimal_body_def dest: isdigit_not_underscore)
  next
    case False
    show ?thesis
    proof (cases "c = CHR ''_'' \<and> isdigit e")
      case True
      then have e: "isdigit e" by simp
      from "3.IH"(2)[OF False True e] False True "3.prems" show ?thesis
        by (auto simp: decimal_body_def dest: isdigit_not_underscore)
    next
      case F2: False
      with False show ?thesis by (auto simp: decimal_body_def)
    qed
  qed
qed

lemma parse_unsigned_decimal_body: "(parse_unsigned b = None) = (\<not> decimal_body b)"
proof (cases b)
  case Nil
  then show ?thesis by (simp add: parse_unsigned_def decimal_body_def)
next
  case (Cons c cs)
  show ?thesis
  proof (cases "isdigit c")
    case True
    then show ?thesis unfolding Cons by (simp add: parse_unsigned_def parse_digits_decimal_body)
  next
    case False
    then show ?thesis unfolding Cons by (simp add: parse_unsigned_def decimal_body_def)
  qed
qed

lemma py_int_int_literal: "(py_int s = None) = (\<not> int_literal s)"
  using parse_unsigned_decimal_body
  by (auto simp: py_int_def int_literal_def split: list.splits)


lemma css_to_dict_loop_map_of:
  "css_to_dict_loop ps acc = Inr d \<Longrightarrow>
   map_of d k =
     (case rev (filter (\<lambda>e. hd e = k) (filter (\<lambda>e. e \<noteq> ['''']) (map (split_str '':'') ps))) of
        [] \<Rightarrow> map_of acc k
      | e # _ \<Rightarrow> (case e of _ # v # _ \<Rightarrow> Some v | _ \<Rightarrow> None))"
proof (induction ps arbitrary: acc)
  case Nil
  then show ?case by simp
next
  case (Cons i rest)
  let ?F = "filter (\<lambda>e. hd e = k) (filter (\<lambda>e. e \<noteq> ['''']) (map (split_str '':'') rest))"
  show ?case
  proof (cases "split_str '':'' i = ['''']")
    case True
    with Cons show ?thesis by (simp add: Let_def)
  next
    case False
    with Cons.prems obtain k' v' r where elet: "split_str '':'' i = k' # v' # r"
      and rest: "css_to_dict_loop rest (AList.update k' v' acc) = Inr d"
      by (auto simp: Let_def split: list.splits)
    note IH = Cons.IH[OF rest]
    show ?thesis
    proof (cases "rev ?F")
      case Nil
      with IH elet False show ?thesis by (auto simp: update_conv')
    next
      case (Cons e es)
      with IH elet False show ?thesis by simp
    qed
  qed
qed

lemma css_to_dict_declared:
  assumes "css_to_dict st = Inr d"
  shows "map_of d k = declared st k"
  unfolding css_to_dict_loop_map_of[OF assms[unfolded css_to_dict_def]]
  by (simp add: declared_def declarations_def split: list.splits)


lemma px_value_succeeds:
  assumes "css_to_dict st = Inr d" "has_numeric st k"
  shows "\<exists>n. px_value d k = Inr n"
proof -
  from assms(2) obtain v where v: "declared st k = Some v" "int_literal (py_replace ''px'' '''' v)"
    by (auto simp: has_numeric_def split: option.splits)
  then have "py_int (py_replace ''px'' '''' v) \<noteq> None" using py_int_int_literal by blast
  with v css_to_dict_declared[OF assms(1), of k] show ?thesis by (auto simp: px_value_def)
qed


lemma index_of_label_decodes:
  assumes "style_attr l = Some st" "css_to_dict st = Inr d"
    "has_numeric st ''top''" "has_numeric st ''left''"
  shows "\<exists>ij. index_of_label l = Inr ij"
  using px_value_succeeds[OF assms(2,3)] px_value_succeeds[OF assms(2,4)] assms(1,2)
  by (auto simp: index_of_label_def get_index_def get_coordinates_def)








end
